theory Spec2Isabelle
  imports Main "HOL-Library.AList"
begin

section \<open>Python values\<close>

text \<open>
  The values \<^verbatim>\<open>json.loads\<close> and \<^verbatim>\<open>response.json()\<close> hand to the program: \<^verbatim>\<open>None\<close>,
  booleans, integers, strings, lists and dicts with string keys. A dict is an association
  list in insertion order; a key is looked up with \<open>map_of\<close>. Numbers with a fraction are
  left out of the model. Python's \<^verbatim>\<open>==\<close> on these values is HOL equality; the two differ
  only where a boolean meets the number 1 or 0, or two dicts hold the same items in another
  order.
\<close>

datatype json =
    JNull
  | JBool bool
  | JInt int
  | JStr string
  | JArr "json list"
  | JObj "(string \<times> json) list"

text \<open>An exception, instance of \<^verbatim>\<open>Exception\<close>: its class and the text \<^verbatim>\<open>str(e)\<close> gives.\<close>

datatype exn_class =
    KeyError | IndexError | TypeError | AttributeError | ValueError | HTTPError | OtherError

datatype exn = Exn exn_class string

fun exn_str :: "exn \<Rightarrow> string" where
  "exn_str (Exn c m) = m"

definition quoted :: "string \<Rightarrow> string" where
  "quoted s = [CHR 0x27] @ s @ [CHR 0x27]"

fun type_name :: "json \<Rightarrow> string" where
  "type_name JNull = ''NoneType''"
| "type_name (JBool b) = ''bool''"
| "type_name (JInt n) = ''int''"
| "type_name (JStr s) = ''str''"
| "type_name (JArr xs) = ''list''"
| "type_name (JObj kvs) = ''dict''"

text \<open>Truthiness, as \<^verbatim>\<open>if x:\<close> and \<^verbatim>\<open>if not x:\<close> test it.\<close>

fun truthy :: "json \<Rightarrow> bool" where
  "truthy JNull = False"
| "truthy (JBool b) = b"
| "truthy (JInt n) = (n \<noteq> 0)"
| "truthy (JStr s) = (s \<noteq> [])"
| "truthy (JArr xs) = (xs \<noteq> [])"
| "truthy (JObj kvs) = (kvs \<noteq> [])"

text \<open>\<^verbatim>\<open>x[key]\<close> with a string key: \<^verbatim>\<open>KeyError\<close> on a dict without the key (its text is the
  key's \<^verbatim>\<open>repr\<close>), \<^verbatim>\<open>TypeError\<close> on anything that is not a dict.\<close>

fun py_getitem :: "json \<Rightarrow> string \<Rightarrow> exn + json" where
  "py_getitem (JObj kvs) k =
     (case map_of kvs k of
        None \<Rightarrow> Inl (Exn KeyError (quoted k))
      | Some v \<Rightarrow> Inr v)"
| "py_getitem (JStr s) k = Inl (Exn TypeError (''string indices must be integers, not '' @ quoted ''str''))"
| "py_getitem (JArr xs) k = Inl (Exn TypeError ''list indices must be integers or slices, not str'')"
| "py_getitem v k = Inl (Exn TypeError (quoted (type_name v) @ '' object is not subscriptable''))"

text \<open>\<^verbatim>\<open>x.get(key, default)\<close>: only a dict has the method.\<close>

fun py_get :: "json \<Rightarrow> string \<Rightarrow> json \<Rightarrow> exn + json" where
  "py_get (JObj kvs) k d = (case map_of kvs k of None \<Rightarrow> Inr d | Some v \<Rightarrow> Inr v)"
| "py_get v k d = Inl (Exn AttributeError (quoted (type_name v) @ '' object has no attribute '' @ quoted ''get''))"

text \<open>\<^verbatim>\<open>x[0]\<close>.\<close>

fun py_first :: "json \<Rightarrow> exn + json" where
  "py_first (JArr []) = Inl (Exn IndexError ''list index out of range'')"
| "py_first (JArr (x # xs)) = Inr x"
| "py_first (JStr []) = Inl (Exn IndexError ''string index out of range'')"
| "py_first (JStr (c # cs)) = Inr (JStr [c])"
| "py_first (JObj kvs) = Inl (Exn KeyError ''0'')"
| "py_first v = Inl (Exn TypeError (quoted (type_name v) @ '' object is not subscriptable''))"

text \<open>What \<^verbatim>\<open>for x in v\<close> runs over: the elements of a list, the characters of a string,
  the keys of a dict; \<^verbatim>\<open>TypeError\<close> otherwise.\<close>

fun py_iter :: "json \<Rightarrow> exn + json list" where
  "py_iter (JArr xs) = Inr xs"
| "py_iter (JStr s) = Inr (map (\<lambda>c. JStr [c]) s)"
| "py_iter (JObj kvs) = Inr (map (\<lambda>kv. JStr (fst kv)) kvs)"
| "py_iter v = Inl (Exn TypeError (quoted (type_name v) @ '' object is not iterable''))"

text \<open>\<^verbatim>\<open>str(v)\<close>, as an f-string formats a value: a string is itself, any other value is its
  \<^verbatim>\<open>repr\<close>, which is the interpreter's and is taken as a parameter.\<close>

fun py_str :: "(json \<Rightarrow> string) \<Rightarrow> json \<Rightarrow> string" where
  "py_str rp (JStr s) = s"
| "py_str rp v = rp v"

text \<open>Sequencing of computations that may raise.\<close>

fun ebind :: "exn + 'a \<Rightarrow> ('a \<Rightarrow> exn + 'b) \<Rightarrow> exn + 'b" where
  "ebind (Inl e) f = Inl e"
| "ebind (Inr a) f = f a"

section \<open>The environment\<close>

text \<open>
  What the program calls and does not define: the model's completion endpoint, the JSON
  decoder, the credential provider, the clock, the HTTP transport. Each call may change the
  world \<open>'w\<close> outside the program and may raise.
\<close>

record http_request =
  rq_method :: string
  rq_url :: string
  rq_authorization :: string
  rq_json :: "json option"

record http_response =
  status_code :: nat
  error_text :: string
  json_body :: "exn + json"

record 'w env =
  chat_completion :: "string \<Rightarrow> 'w \<Rightarrow> (exn + string) \<times> 'w"
  json_loads :: "string \<Rightarrow> json option"
  credential_get_token :: "'w \<Rightarrow> (exn + string \<times> int) \<times> 'w"
  datetime_now :: "'w \<Rightarrow> int"
  requests_request :: "http_request \<Rightarrow> 'w \<Rightarrow> (exn + http_response) \<times> 'w"
  isoformat :: "int \<Rightarrow> string"
  py_repr :: "json \<Rightarrow> string"

section \<open>utils/openai\_service.py\<close>

text \<open>\<^verbatim>\<open>str.find\<close> and \<^verbatim>\<open>str.rfind\<close> of one character, \<^verbatim>\<open>-1\<close> when it is absent.\<close>

definition str_find :: "char \<Rightarrow> string \<Rightarrow> int" where
  "str_find c s = (if c \<in> set s then int (length (takeWhile (\<lambda>x. x \<noteq> c) s)) else - 1)"

definition str_rfind :: "char \<Rightarrow> string \<Rightarrow> int" where
  "str_rfind c s =
     (if c \<in> set s then int (length s) - 1 - int (length (takeWhile (\<lambda>x. x \<noteq> c) (rev s))) else - 1)"

text \<open>\<^verbatim>\<open>s[i:j]\<close> for \<open>0 \<le> i\<close> and \<open>0 \<le> j\<close>.\<close>

definition str_slice :: "string \<Rightarrow> int \<Rightarrow> int \<Rightarrow> string" where
  "str_slice s i j = take (nat j - nat i) (drop (nat i) s)"

text \<open>\<^verbatim>\<open>str.isspace\<close> on the code points below 256, and \<^verbatim>\<open>str.strip()\<close>.\<close>

definition py_isspace :: "char \<Rightarrow> bool" where
  "py_isspace c = (of_char c \<in> {9, 10, 11, 12, 13, 28, 29, 30, 31, 32, 133, 160 :: nat})"

definition py_strip :: "string \<Rightarrow> string" where
  "py_strip s = rev (dropWhile py_isspace (rev (dropWhile py_isspace s)))"

text \<open>\<^verbatim>\<open>_validate_parsed_data\<close>.\<close>

definition validate_parsed_data :: "json \<Rightarrow> bool" where
  "validate_parsed_data data =
     (case data of
        JObj kvs \<Rightarrow>
          if ''action'' \<notin> fst ` set kvs then False
          else if map_of kvs ''action'' = Some (JStr ''create_app_registration'') then
            (if \<not> list_all (\<lambda>field. field \<in> fst ` set kvs) [''appName''] then False else True)
          else True
      | _ \<Rightarrow> False)"

text \<open>The text handed to the decoder: the span from the first \<^verbatim>\<open>{\<close> to the last \<^verbatim>\<open>}\<close> when
  there is one, the whole reply otherwise.\<close>

definition json_text :: "string \<Rightarrow> string" where
  "json_text parsed_response =
     (let json_start = str_find (CHR ''{'') parsed_response;
          json_end = str_rfind (CHR ''}'') parsed_response + 1
      in if json_start \<ge> 0 \<and> json_end > json_start
         then str_slice parsed_response json_start json_end
         else parsed_response)"

text \<open>\<^verbatim>\<open>parse_command\<close>: every exception inside is caught and turned into \<^verbatim>\<open>None\<close>.\<close>

definition parse_command :: "'w env \<Rightarrow> string \<Rightarrow> 'w \<Rightarrow> json option \<times> 'w" where
  "parse_command env command_text w =
     (case chat_completion env command_text w of
        (Inl e, w') \<Rightarrow> (None, w')
      | (Inr content, w') \<Rightarrow>
          (case json_loads env (json_text (py_strip content)) of
             None \<Rightarrow> (None, w')
           | Some parsed_data \<Rightarrow>
               if validate_parsed_data parsed_data then (Some parsed_data, w') else (None, w')))"

section \<open>utils/graph\_service.py\<close>

text \<open>
  The state of a run: the two fields of the \<^verbatim>\<open>GraphService\<close> object, the world outside,
  and two records kept for stating properties: the requests handed to the transport, in
  order, and the number of calls made to the credential provider.
\<close>

record 'w state =
  token :: "string option"
  token_expires :: "int option"
  world :: 'w
  sent :: "http_request list"
  token_fetches :: nat

type_synonym ('a, 'w) action = "'w state \<Rightarrow> (exn + 'a) \<times> 'w state"

text \<open>Sequencing of actions on the state: an exception ends the sequence, with the state
  reached when it was raised.\<close>

definition sbind :: "('a, 'w) action \<Rightarrow> ('a \<Rightarrow> ('b, 'w) action) \<Rightarrow> ('b, 'w) action" where
  "sbind m f s = (case m s of (Inl e, s') \<Rightarrow> (Inl e, s') | (Inr a, s') \<Rightarrow> f a s')"

definition lift :: "exn + 'a \<Rightarrow> ('a, 'w) action" where
  "lift r s = (r, s)"

definition base_url :: string where
  "base_url = ''https://graph.microsoft.com/v1.0''"

text \<open>\<^verbatim>\<open>_get_token\<close>. The cached token is returned when it is a non-empty string, an expiry is
  cached and the clock is before it. Otherwise the credential provider is called, once; its
  \<^verbatim>\<open>expires_on\<close> less 300 is added, as seconds, to the clock read after the call.\<close>

definition get_token :: "'w env \<Rightarrow> (string, 'w) action" where
  "get_token env s =
     (let fresh =
        (case credential_get_token env (world s) of
           (Inl e, w) \<Rightarrow> (Inl e, s\<lparr>world := w, token_fetches := Suc (token_fetches s)\<rparr>)
         | (Inr (tok, expires_on), w) \<Rightarrow>
             (Inr tok, s\<lparr>token := Some tok,
                         token_expires := Some (datetime_now env w + (expires_on - 300)),
                         world := w,
                         token_fetches := Suc (token_fetches s)\<rparr>))
      in case token s of
           None \<Rightarrow> fresh
         | Some tok \<Rightarrow>
             if tok = [] then fresh
             else (case token_expires s of
                     None \<Rightarrow> fresh
                   | Some expires \<Rightarrow>
                       if datetime_now env (world s) < expires then (Inr tok, s) else fresh))"

text \<open>\<^verbatim>\<open>_make_request\<close>. The token is obtained first; a failure of the transport, a status
  from 400 to 599 (\<^verbatim>\<open>raise_for_status\<close>) and a body that does not decode are raised to the
  caller; status 204 gives the empty dict.\<close>

definition make_request :: "'w env \<Rightarrow> string \<Rightarrow> string \<Rightarrow> json option \<Rightarrow> (json, 'w) action" where
  "make_request env method endpoint data_json =
     sbind (get_token env) (\<lambda>tok s.
       let rq = \<lparr> rq_method = method, rq_url = base_url @ endpoint,
                  rq_authorization = ''Bearer '' @ tok, rq_json = data_json \<rparr>
       in case requests_request env rq (world s) of
            (Inl e, w) \<Rightarrow> (Inl e, s\<lparr>world := w, sent := sent s @ [rq]\<rparr>)
          | (Inr response, w) \<Rightarrow>
              (if 400 \<le> status_code response \<and> status_code response < 600
                 then Inl (Exn HTTPError (error_text response))
               else if status_code response = 204 then Inr (JObj [])
               else json_body response,
               s\<lparr>world := w, sent := sent s @ [rq]\<rparr>))"

text \<open>\<^verbatim>\<open>create_app_registration\<close> of the Graph client.\<close>

definition create_app_registration :: "'w env \<Rightarrow> json \<Rightarrow> json \<Rightarrow> (json, 'w) action" where
  "create_app_registration env app_name description =
     make_request env ''POST'' ''/applications''
       (Some (JObj
          ([(''displayName'', app_name),
            (''signInAudience'', JStr ''AzureADMyOrg''),
            (''web'', JObj
               [(''redirectUris'', JArr [JStr ''https://localhost:44321'']),
                (''implicitGrantSettings'', JObj [(''enableIdTokenIssuance'', JBool True)])])]
           @ (if truthy description then [(''notes'', description)] else []))))"

definition application_endpoint :: "'w env \<Rightarrow> json \<Rightarrow> string" where
  "application_endpoint env app_id = ''/applications/'' @ py_str (py_repr env) app_id"

text \<open>\<^verbatim>\<open>create_client_secret\<close>, with the default display name; the secret ends 365 days
  after the clock's reading.\<close>

definition create_client_secret :: "'w env \<Rightarrow> json \<Rightarrow> (json, 'w) action" where
  "create_client_secret env app_id s =
     make_request env ''POST''
       (application_endpoint env app_id @ ''/addPassword'')
       (Some (JObj
          [(''passwordCredential'', JObj
              [(''displayName'', JStr ''Default Secret''),
               (''endDateTime'',
                  JStr (isoformat env (datetime_now env (world s) + 365 * 86400)))])]))
       s"

text \<open>\<^verbatim>\<open>create_service_principal\<close>.\<close>

definition create_service_principal :: "'w env \<Rightarrow> json \<Rightarrow> (json, 'w) action" where
  "create_service_principal env app_id =
     make_request env ''POST'' ''/servicePrincipals'' (Some (JObj [(''appId'', app_id)]))"

subsection \<open>add\_required\_permissions\<close>

definition graph_api_id :: string where
  "graph_api_id = ''00000003-0000-0000-c000-000000000000''"

text \<open>The first entry of \<^verbatim>\<open>required_access\<close> whose \<^verbatim>\<open>resourceAppId\<close> is Microsoft Graph's, with
  its position; the entries are read in order, up to the first match.\<close>

fun find_graph_access :: "json list \<Rightarrow> exn + (nat \<times> json) option" where
  "find_graph_access [] = Inr None"
| "find_graph_access (ra # ras) =
     (case py_getitem ra ''resourceAppId'' of
        Inl e \<Rightarrow> Inl e
      | Inr v \<Rightarrow>
          if v = JStr graph_api_id then Inr (Some (0, ra))
          else (case find_graph_access ras of
                  Inl e \<Rightarrow> Inl e
                | Inr None \<Rightarrow> Inr None
                | Inr (Some (i, g)) \<Rightarrow> Inr (Some (Suc i, g))))"

text \<open>
  Lines 161 to 168: the list \<^verbatim>\<open>required_access\<close>, the entry \<^verbatim>\<open>graph_access\<close> and the position
  at which that entry is an element of the list (the same object: what is appended to the
  entry later shows in the list). A new entry is appended when it is not in the list.
\<close>

definition new_graph_access :: json where
  "new_graph_access = JObj [(''resourceAppId'', JStr graph_api_id), (''resourceAccess'', JArr [])]"

definition locate_graph_access :: "json \<Rightarrow> exn + (json list \<times> nat option \<times> json)" where
  "locate_graph_access required_access =
     ebind (py_iter required_access) (\<lambda>ras.
     ebind (find_graph_access ras) (\<lambda>found.
       case required_access of
         JArr xs \<Rightarrow>
           (case found of
              Some (i, graph_access) \<Rightarrow> Inr (xs, Some i, graph_access)
            | None \<Rightarrow>
                if new_graph_access \<notin> set xs
                then Inr (xs @ [new_graph_access], Some (length xs), new_graph_access)
                else Inr (xs, None, new_graph_access))
       | JStr s \<Rightarrow>
           Inl (Exn TypeError (quoted ''in <string>'' @ '' requires string as left operand, not dict''))
       | _ \<Rightarrow> Inl (Exn TypeError (''unhashable type: '' @ quoted ''dict''))))"

datatype permission_kind = Application | Delegated

text \<open>\<^verbatim>\<open>"." in permission\<close> and \<^verbatim>\<open>permission.split(".")\<close>.\<close>

fun contains_dot :: "json \<Rightarrow> exn + bool" where
  "contains_dot (JStr s) = Inr (CHR ''.'' \<in> set s)"
| "contains_dot (JArr xs) = Inr (JStr ''.'' \<in> set xs)"
| "contains_dot (JObj kvs) = Inr (''.'' \<in> fst ` set kvs)"
| "contains_dot v = Inl (Exn TypeError (''argument of type '' @ quoted (type_name v) @ '' is not iterable''))"

fun split_char :: "char \<Rightarrow> string \<Rightarrow> string list" where
  "split_char c [] = [[]]"
| "split_char c (x # xs) =
     (if x = c then [] # split_char c xs
      else (case split_char c xs of
              [] \<Rightarrow> [[x]]
            | part # parts \<Rightarrow> (x # part) # parts))"

fun py_split :: "json \<Rightarrow> exn + string list" where
  "py_split (JStr s) = Inr (split_char (CHR ''.'') s)"
| "py_split v = Inl (Exn AttributeError (quoted (type_name v) @ '' object has no attribute '' @ quoted ''split''))"

text \<open>Lines 175 to 181: application by default; with a dot in it, application when the
  last part is \<^verbatim>\<open>All\<close> and delegated otherwise.\<close>

definition permission_type :: "json \<Rightarrow> exn + permission_kind" where
  "permission_type permission =
     ebind (contains_dot permission) (\<lambda>dotted.
       if dotted then
         ebind (py_split permission) (\<lambda>scope_parts.
           if last scope_parts = ''All'' then Inr Application else Inr Delegated)
       else Inr Application)"

text \<open>\<^verbatim>\<open>next((p for p in catalog if p["value"] == permission), None)\<close>.\<close>

fun find_by_value :: "json \<Rightarrow> json list \<Rightarrow> exn + json option" where
  "find_by_value permission [] = Inr None"
| "find_by_value permission (p # ps) =
     (case py_getitem p ''value'' of
        Inl e \<Rightarrow> Inl e
      | Inr v \<Rightarrow> if v = permission then Inr (Some p) else find_by_value permission ps)"

definition catalog_key :: "permission_kind \<Rightarrow> string" where
  "catalog_key kind = (case kind of Application \<Rightarrow> ''appRoles'' | Delegated \<Rightarrow> ''oauth2PermissionScopes'')"

definition find_permission_def :: "json \<Rightarrow> permission_kind \<Rightarrow> json \<Rightarrow> exn + json option" where
  "find_permission_def graph_permissions kind permission =
     ebind (py_get graph_permissions (catalog_key kind) (JArr [])) (\<lambda>catalog.
     ebind (py_iter catalog) (\<lambda>ps. find_by_value permission ps))"

text \<open>\<^verbatim>\<open>any(ra["id"] == permission_id for ra in ...)\<close>: read in order, up to the first match.\<close>

fun any_id :: "json \<Rightarrow> json list \<Rightarrow> exn + bool" where
  "any_id permission_id [] = Inr False"
| "any_id permission_id (ra # ras) =
     (case py_getitem ra ''id'' of
        Inl e \<Rightarrow> Inl e
      | Inr v \<Rightarrow> if v = permission_id then Inr True else any_id permission_id ras)"

definition permission_type_value :: "permission_kind \<Rightarrow> string" where
  "permission_type_value kind = (case kind of Application \<Rightarrow> ''Role'' | Delegated \<Rightarrow> ''Scope'')"

text \<open>\<^verbatim>\<open>graph_access["resourceAccess"].append(entry)\<close>.\<close>

definition append_access :: "json \<Rightarrow> json \<Rightarrow> exn + json" where
  "append_access graph_access entry =
     ebind (py_getitem graph_access ''resourceAccess'') (\<lambda>access.
       case access of
         JArr xs \<Rightarrow>
           (case graph_access of
              JObj kvs \<Rightarrow> Inr (JObj (AList.update ''resourceAccess'' (JArr (xs @ [entry])) kvs))
            | _ \<Rightarrow> Inr graph_access)
       | _ \<Rightarrow> Inl (Exn AttributeError
                  (quoted (type_name access) @ '' object has no attribute '' @ quoted ''append'')))"

text \<open>The body of the loop (lines 172 to 208) for one requested permission: the entry
  \<^verbatim>\<open>graph_access\<close> after it.\<close>

definition add_permission :: "json \<Rightarrow> json \<Rightarrow> json \<Rightarrow> exn + json" where
  "add_permission graph_permissions graph_access permission =
     ebind (permission_type permission) (\<lambda>kind.
     ebind (find_permission_def graph_permissions kind permission) (\<lambda>found.
       case found of
         None \<Rightarrow> Inr graph_access
       | Some permission_def \<Rightarrow>
           if \<not> truthy permission_def then Inr graph_access
           else
             ebind (py_getitem permission_def ''id'') (\<lambda>permission_id.
             ebind (py_getitem graph_access ''resourceAccess'') (\<lambda>access.
             ebind (py_iter access) (\<lambda>entries.
             ebind (any_id permission_id entries) (\<lambda>present.
               if present then Inr graph_access
               else append_access graph_access
                      (JObj [(''id'', permission_id),
                             (''type'', JStr (permission_type_value kind))])))))))"

fun add_permissions :: "json \<Rightarrow> json \<Rightarrow> json list \<Rightarrow> exn + json" where
  "add_permissions graph_permissions graph_access [] = Inr graph_access"
| "add_permissions graph_permissions graph_access (permission # permissions) =
     (case add_permission graph_permissions graph_access permission of
        Inl e \<Rightarrow> Inl e
      | Inr graph_access' \<Rightarrow> add_permissions graph_permissions graph_access' permissions)"

text \<open>Lines 161 to 208: the list sent back, computed from the application fetched, the
  catalog fetched and the permissions requested.\<close>

definition merge_permissions :: "json \<Rightarrow> json \<Rightarrow> json \<Rightarrow> exn + json" where
  "merge_permissions app graph_permissions permissions =
     ebind (py_get app ''requiredResourceAccess'' (JArr [])) (\<lambda>required_access.
     ebind (locate_graph_access required_access) (\<lambda>(ras, position, graph_access).
     ebind (py_iter permissions) (\<lambda>ps.
     ebind (add_permissions graph_permissions graph_access ps) (\<lambda>graph_access'.
       Inr (JArr (case position of
                    None \<Rightarrow> ras
                  | Some i \<Rightarrow> ras[i := graph_access']))))))"

definition catalog_endpoint :: string where
  "catalog_endpoint =
     ''/servicePrincipals?$filter=appId eq '' @ quoted graph_api_id
       @ ''&$select=appRoles,oauth2PermissionScopes''"

definition add_required_permissions :: "'w env \<Rightarrow> json \<Rightarrow> json \<Rightarrow> (bool, 'w) action" where
  "add_required_permissions env app_id permissions =
     (if \<not> truthy permissions then lift (Inr True)
      else
        sbind (make_request env ''GET'' (application_endpoint env app_id) None) (\<lambda>app.
        sbind (make_request env ''GET'' catalog_endpoint None) (\<lambda>response.
        sbind (lift (py_getitem response ''value'')) (\<lambda>value.
        sbind (lift (py_first value)) (\<lambda>graph_permissions.
        sbind (lift (merge_permissions app graph_permissions permissions)) (\<lambda>required_access.
        sbind (make_request env ''PATCH'' (application_endpoint env app_id)
                 (Some (JObj [(''requiredResourceAccess'', required_access)]))) (\<lambda>updated.
        lift (Inr True))))))))"

section \<open>app\_orchestrator.py\<close>

text \<open>The dict every operation returns; \<^verbatim>\<open>data\<close> and \<^verbatim>\<open>nextSteps\<close> are absent from a failure.\<close>

record envelope =
  success :: bool
  message :: string
  data :: "(string \<times> json) list option"
  nextSteps :: "string list option"

definition failure :: "string \<Rightarrow> envelope" where
  "failure msg = \<lparr> success = False, message = msg, data = None, nextSteps = None \<rparr>"

text \<open>The body of the \<^verbatim>\<open>try\<close> of \<^verbatim>\<open>_create_app_registration\<close> (lines 94 to 136).\<close>

definition create_plan :: "'w env \<Rightarrow> json \<Rightarrow> json \<Rightarrow> json \<Rightarrow> (envelope, 'w) action" where
  "create_plan env app_name permissions description =
     sbind (create_app_registration env app_name description) (\<lambda>app.
     sbind (lift (py_getitem app ''id'')) (\<lambda>app_id.
     sbind (lift (py_getitem app ''appId'')) (\<lambda>app_client_id.
     sbind (create_client_secret env app_id) (\<lambda>secret_result.
     sbind (lift (py_getitem secret_result ''secretText'')) (\<lambda>client_secret.
     sbind (lift (py_getitem secret_result ''id'')) (\<lambda>secret_id.
     sbind (if truthy permissions then add_required_permissions env app_id permissions
            else lift (Inr True)) (\<lambda>added.
     sbind (create_service_principal env app_client_id) (\<lambda>sp.
     sbind (lift (py_getitem sp ''id'')) (\<lambda>sp_id.
     lift (Inr
       \<lparr> success = True,
         message = ''App registration '' @ quoted (py_str (py_repr env) app_name)
                     @ '' created successfully.'',
         data = Some [(''applicationId'', app_client_id),
                      (''objectId'', app_id),
                      (''servicePrincipalId'', sp_id),
                      (''clientSecret'', client_secret)],
         nextSteps = Some [''Store the client secret securely (it won't be shown again).'',
                           ''Admin consent may be required for application permissions.''] \<rparr>))))))))))"

text \<open>\<^verbatim>\<open>_create_app_registration\<close> of the agent: the plan, with every exception turned into a
  failure envelope.\<close>

definition agent_create_app_registration ::
  "'w env \<Rightarrow> json \<Rightarrow> json \<Rightarrow> json \<Rightarrow> 'w state \<Rightarrow> envelope \<times> 'w state" where
  "agent_create_app_registration env app_name permissions description s =
     (case create_plan env app_name permissions description s of
        (Inl e, s') \<Rightarrow> (failure (''Error creating app registration: '' @ exn_str e), s')
      | (Inr result, s') \<Rightarrow> (result, s'))"

text \<open>
  What the handler \<^verbatim>\<open>except Exception\<close> tells apart: an exception whose class derives from
  \<^verbatim>\<open>Exception\<close>, which it catches, and an exception whose class derives from
  \<^verbatim>\<open>BaseException\<close> only, which it lets through.
\<close>

datatype base_class = KeyboardInterrupt | SystemExit | GeneratorExit

datatype raised = Exc exn | BaseExc base_class

text \<open>
  \<^verbatim>\<open>self.openai_service\<close> as \<^verbatim>\<open>process_command\<close> uses it: the call
  \<^verbatim>\<open>parse_command(command_text)\<close> returns a value, or an exception escapes it.
  \<^verbatim>\<open>process_command\<close> is modelled for every such object. The repository's \<^verbatim>\<open>OpenAIService\<close>
  is one of them: on the runs modelled by \<open>parse_command\<close> above it returns \<^verbatim>\<open>None\<close> or the
  validated dict; an exception escapes it when the \<^verbatim>\<open>print\<close> of its handler fails, or when
  the exception raised inside it is not an instance of \<^verbatim>\<open>Exception\<close>.
\<close>

type_synonym 'w parser = "string \<Rightarrow> 'w \<Rightarrow> (raised + json) \<times> 'w"

definition openai_service :: "'w env \<Rightarrow> 'w parser" where
  "openai_service env command_text w =
     (case parse_command env command_text w of
        (None, w') \<Rightarrow> (Inr JNull, w')
      | (Some parsed_data, w') \<Rightarrow> (Inr parsed_data, w'))"

text \<open>Lines 49 to 72 of \<^verbatim>\<open>process_command\<close>: the action is read and the command is executed.
  The exceptions raised here are those of the subscripts.\<close>

definition execute :: "'w env \<Rightarrow> json \<Rightarrow> (envelope, 'w) action" where
  "execute env parsed_data =
     sbind (lift (py_getitem parsed_data ''action'')) (\<lambda>action.
       if action = JStr ''create_app_registration'' then
         sbind (lift (py_getitem parsed_data ''appName'')) (\<lambda>app_name.
         sbind (lift (py_get parsed_data ''permissions'' (JArr []))) (\<lambda>permissions.
         sbind (lift (py_get parsed_data ''description'' (JStr ''''))) (\<lambda>description s1.
           case agent_create_app_registration env app_name permissions description s1 of
             (result, s2) \<Rightarrow> (Inr result, s2))))
       else if action = JStr ''update_app_registration'' then
         lift (Inr (failure ''Update app registration not implemented yet''))
       else if action = JStr ''delete_app_registration'' then
         lift (Inr (failure ''Delete app registration not implemented yet''))
       else
         lift (Inr (failure (''Unknown action: '' @ py_str (py_repr env) action))))"

text \<open>The body of the \<^verbatim>\<open>try\<close> of \<^verbatim>\<open>process_command\<close> (lines 39 to 72): what the parser raises
  is raised here, a value that is not truthy is a parse failure, and any other value is
  executed.\<close>

definition dispatch ::
  "'w parser \<Rightarrow> 'w env \<Rightarrow> string \<Rightarrow> 'w state \<Rightarrow> (raised + envelope) \<times> 'w state" where
  "dispatch parser env command_text s =
     (case parser command_text (world s) of
        (Inl r, w) \<Rightarrow> (Inl r, s\<lparr>world := w\<rparr>)
      | (Inr parsed_data, w) \<Rightarrow>
          if \<not> truthy parsed_data
          then (Inr (failure ''Failed to parse command. Please try rephrasing.''), s\<lparr>world := w\<rparr>)
          else (case execute env parsed_data (s\<lparr>world := w\<rparr>) of
                  (Inl e, s') \<Rightarrow> (Inl (Exc e), s')
                | (Inr result, s') \<Rightarrow> (Inr result, s')))"

text \<open>\<^verbatim>\<open>process_command\<close>: an instance of \<^verbatim>\<open>Exception\<close> raised in the body becomes a failure
  envelope (lines 74 to 79); any other exception leaves the method.\<close>

definition process_command ::
  "'w parser \<Rightarrow> 'w env \<Rightarrow> string \<Rightarrow> 'w state \<Rightarrow> (raised + envelope) \<times> 'w state" where
  "process_command parser env command_text s =
     (case dispatch parser env command_text s of
        (Inl (Exc e), s') \<Rightarrow> (Inr (failure (''Error processing command: '' @ exn_str e)), s')
      | (Inl (BaseExc c), s') \<Rightarrow> (Inl (BaseExc c), s')
      | (Inr result, s') \<Rightarrow> (Inr result, s'))"

section \<open>Notions used in the properties\<close>

text \<open>An entry of \<^verbatim>\<open>requiredResourceAccess\<close> after entries were appended to its
  \<^verbatim>\<open>resourceAccess\<close> list: the same dict, or the same dict with a longer list under that
  key, the old list being the beginning of the new one.\<close>

definition access_appended :: "json \<Rightarrow> json \<Rightarrow> bool" where
  "access_appended g g' \<longleftrightarrow>
     g' = g \<or>
     (\<exists>kvs xs zs. g = JObj kvs \<and> map_of kvs ''resourceAccess'' = Some (JArr xs)
        \<and> g' = JObj (AList.update ''resourceAccess'' (JArr (xs @ zs)) kvs))"

text \<open>The requests a call has handed to the transport: those recorded since the state
  \<open>s\<close> in which it started.\<close>

definition requests_since :: "'w state \<Rightarrow> 'w state \<Rightarrow> http_request list" where
  "requests_since s s' = drop (length (sent s)) (sent s')"

text \<open>The request that creates a service principal.\<close>

definition creates_service_principal :: "http_request \<Rightarrow> bool" where
  "creates_service_principal rq \<longleftrightarrow>
     rq_method rq = ''POST'' \<and> rq_url rq = base_url @ ''/servicePrincipals''"

text \<open>An entry of \<^verbatim>\<open>requiredResourceAccess\<close> for a resource API other than Microsoft
  Graph.\<close>

definition other_api :: "json \<Rightarrow> bool" where
  "other_api ra \<longleftrightarrow> (\<exists>v. py_getitem ra ''resourceAppId'' = Inr v \<and> v \<noteq> JStr graph_api_id)"

text \<open>An action all of whose requests satisfy \<open>P\<close>.\<close>

definition sends :: "(http_request \<Rightarrow> bool) \<Rightarrow> ('a, 'w) action \<Rightarrow> bool" where
  "sends P act \<longleftrightarrow>
     (\<forall>s r s'. act s = (r, s') \<longrightarrow> (\<exists>l. sent s' = sent s @ l \<and> (\<forall>rq\<in>set l. P rq)))"

section \<open>Stub collaborators\<close>

text \<open>
  A stub environment for running the program on concrete inputs: the world is a counter
  of the calls made, which is also the clock in seconds; the completion endpoint always
  replies \<open>reply\<close>; the decoder knows the texts listed in \<open>decodes\<close>; the credential provider
  hands out one token that expires an hour after the call, its \<^verbatim>\<open>expires_on\<close> being that
  instant in seconds since the epoch, as the \<^verbatim>\<open>azure.identity\<close> credentials built in
  \<^verbatim>\<open>utils/config.py\<close> give it; the transport answers each request with \<open>respond\<close>.
\<close>

definition stub_env ::
  "string \<Rightarrow> (string \<times> json) list \<Rightarrow> (http_request \<Rightarrow> exn + http_response) \<Rightarrow> nat env" where
  "stub_env reply decodes respond =
     \<lparr> chat_completion = (\<lambda>command_text w. (Inr reply, Suc w)),
       json_loads = map_of decodes,
       credential_get_token = (\<lambda>w. (Inr (''token-1'', int w + 3600), Suc w)),
       datetime_now = int,
       requests_request = (\<lambda>rq w. (respond rq, Suc w)),
       isoformat = (\<lambda>t. ''2027-01-01T00:00:00''),
       py_repr = (\<lambda>v. ''?'') \<rparr>"

definition dq :: "string \<Rightarrow> string" where
  "dq s = [CHR 0x22] @ s @ [CHR 0x22]"

definition foo_text :: string where
  "foo_text = ''{'' @ dq ''action'' @ '':'' @ dq ''create_app_registration'' @ '','' @
     dq ''appName'' @ '':'' @ dq ''Foo'' @ ''}''"

definition foo_descriptor :: json where
  "foo_descriptor = JObj [(''action'', JStr ''create_app_registration''), (''appName'', JStr ''Foo'')]"

definition no_transport :: "http_request \<Rightarrow> exn + http_response" where
  "no_transport rq = Inl (Exn OtherError ''connection refused'')"

text \<open>The state of a client that has made no call yet, and of one that holds the stub's
  token, fetched at second 1700000000 (the call returned one second later) and expiring at
  second 1700003600, with the world at \<open>w\<close>.\<close>

definition initial_state :: "nat state" where
  "initial_state = \<lparr> token = None, token_expires = None, world = 0, sent = [], token_fetches = 0 \<rparr>"

definition cached_state :: "nat \<Rightarrow> nat state" where
  "cached_state w =
     \<lparr> token = Some ''token-1'', token_expires = Some 3400003301, world = w, sent = [], token_fetches = 1 \<rparr>"

text \<open>A catalog as the second request returns it, with two application roles and two
  delegated scopes.\<close>

definition role_sites_read_all :: json where
  "role_sites_read_all = JObj [(''id'', JStr ''role-1''), (''value'', JStr ''Sites.Read.All'')]"

definition scope_user_read :: json where
  "scope_user_read = JObj [(''id'', JStr ''scope-1''), (''value'', JStr ''User.Read'')]"

definition scope_openid :: json where
  "scope_openid = JObj [(''id'', JStr ''scope-2''), (''value'', JStr ''openid'')]"

definition graph_catalog :: json where
  "graph_catalog =
     JObj [(''appRoles'',
              JArr [role_sites_read_all,
                    JObj [(''id'', JStr ''role-2''), (''value'', JStr ''Directory.Read.All'')]]),
           (''oauth2PermissionScopes'', JArr [scope_user_read, scope_openid])]"

text \<open>
  A stub of the Graph API holding one application, \<open>app\<close>, with object id \<^verbatim>\<open>obj-1\<close>: it
  answers the six requests of the plan, the secret request with \<open>secret\<close>, an update with
  status 204, and anything else with status 404.
\<close>

definition ok :: "json \<Rightarrow> exn + http_response" where
  "ok body = Inr \<lparr> status_code = 200, error_text = [], json_body = Inr body \<rparr>"

definition no_content :: "exn + http_response" where
  "no_content = Inr \<lparr> status_code = 204, error_text = [],
                       json_body = Inl (Exn ValueError ''Expecting value'') \<rparr>"

definition bad_request :: "exn + http_response" where
  "bad_request = Inr \<lparr> status_code = 400, error_text = ''400 Client Error: Bad Request'',
                        json_body = Inr (JObj []) \<rparr>"

definition graph_stub :: "json \<Rightarrow> exn + http_response \<Rightarrow> http_request \<Rightarrow> exn + http_response" where
  "graph_stub app secret rq =
     (if rq_method rq = ''POST'' \<and> rq_url rq = base_url @ ''/applications''
        then ok (JObj [(''id'', JStr ''obj-1''), (''appId'', JStr ''client-1'')])
      else if rq_method rq = ''POST'' \<and> rq_url rq = base_url @ ''/applications/obj-1/addPassword''
        then secret
      else if rq_method rq = ''GET'' \<and> rq_url rq = base_url @ ''/applications/obj-1''
        then ok app
      else if rq_method rq = ''GET'' \<and> rq_url rq = base_url @ catalog_endpoint
        then ok (JObj [(''value'', JArr [graph_catalog])])
      else if rq_method rq = ''PATCH'' \<and> rq_url rq = base_url @ ''/applications/obj-1''
        then no_content
      else if rq_method rq = ''POST'' \<and> rq_url rq = base_url @ ''/servicePrincipals''
        then ok (JObj [(''id'', JStr ''sp-1'')])
      else Inr \<lparr> status_code = 404, error_text = ''404 Client Error: Not Found'',
                  json_body = Inr (JObj []) \<rparr>)"

definition secret_created :: "exn + http_response" where
  "secret_created = ok (JObj [(''id'', JStr ''key-1''), (''secretText'', JStr ''s3cr3t'')])"

text \<open>The application as created, and as it is with a permission of another resource API
  and one Microsoft Graph permission.\<close>

definition app_created :: json where
  "app_created = JObj [(''id'', JStr ''obj-1''), (''appId'', JStr ''client-1'')]"

definition other_access :: json where
  "other_access =
     JObj [(''resourceAppId'', JStr ''00000003-0000-0ff1-ce00-000000000000''),
           (''resourceAccess'', JArr [JObj [(''id'', JStr ''sp-perm''), (''type'', JStr ''Role'')]])]"

definition graph_access_with :: "json list \<Rightarrow> json" where
  "graph_access_with entries =
     JObj [(''resourceAppId'', JStr graph_api_id), (''resourceAccess'', JArr entries)]"

definition app_with :: "json list \<Rightarrow> json" where
  "app_with required_access =
     JObj [(''id'', JStr ''obj-1''), (''appId'', JStr ''client-1''),
           (''requiredResourceAccess'', JArr required_access)]"

definition role_1_access :: json where
  "role_1_access = JObj [(''id'', JStr ''role-1''), (''type'', JStr ''Role'')]"

definition scope_1_access :: json where
  "scope_1_access = JObj [(''id'', JStr ''scope-1''), (''type'', JStr ''Scope'')]"

text \<open>An environment whose completion endpoint is unreachable.\<close>

definition chat_down :: "nat env \<Rightarrow> nat env" where
  "chat_down env =
     env\<lparr>chat_completion := (\<lambda>command_text w. (Inl (Exn OtherError ''Connection error.''), Suc w))\<rparr>"


text \<open>Three parsers: one whose handler cannot print (its standard output is closed), one
  that is interrupted from the keyboard while it waits for the model, and one that returns
  a list.\<close>

definition closed_output_parser :: "nat parser" where
  "closed_output_parser command_text w =
     (Inl (Exc (Exn ValueError ''I/O operation on closed file.'')), Suc w)"

definition interrupted_parser :: "nat parser" where
  "interrupted_parser command_text w = (Inl (BaseExc KeyboardInterrupt), Suc w)"

definition list_parser :: "nat parser" where
  "list_parser command_text w = (Inr (JArr [JStr ''create_app_registration'']), Suc w)"

section \<open>The command parser\<close>

lemma takeWhile_neq_first:
  "c \<notin> set pre \<Longrightarrow> takeWhile (\<lambda>x. x \<noteq> c) (pre @ c # rest) = pre"
  by (induction pre) auto

lemma str_find_first:
  "c \<notin> set pre \<Longrightarrow> str_find c (pre @ c # rest) = int (length pre)"
  by (simp add: str_find_def takeWhile_neq_first)

lemma str_rfind_last:
  "c \<notin> set post \<Longrightarrow> str_rfind c (pre @ c # post) = int (length pre)"
  by (simp add: str_rfind_def takeWhile_neq_first)

lemma json_text_span:
  assumes "CHR ''{'' \<notin> set pre" and "CHR ''}'' \<notin> set post"
  shows "json_text (pre @ CHR ''{'' # mid @ CHR ''}'' # post) = CHR ''{'' # mid @ [CHR ''}'']"
proof -
  let ?r = "pre @ CHR ''{'' # mid @ CHR ''}'' # post"
  have f: "str_find (CHR ''{'') ?r = int (length pre)"
    using assms(1) by (rule str_find_first)
  have "str_rfind (CHR ''}'') ((pre @ CHR ''{'' # mid) @ CHR ''}'' # post)
          = int (length (pre @ CHR ''{'' # mid))"
    using assms(2) by (rule str_rfind_last)
  then have r: "str_rfind (CHR ''}'') ?r = int (length pre) + 1 + int (length mid)"
    by simp
  have n: "nat (int (length pre) + 1 + int (length mid) + 1) - nat (int (length pre))
             = Suc (Suc (length mid))"
    by simp
  have "str_slice ?r (int (length pre)) (int (length pre) + 1 + int (length mid) + 1)
          = CHR ''{'' # mid @ [CHR ''}'']"
    unfolding str_slice_def n by simp
  then show ?thesis
    unfolding json_text_def Let_def f r by simp
qed

lemma json_text_cases:
  "json_text r = r \<or>
   (\<exists>pre mid post. r = pre @ CHR ''{'' # mid @ CHR ''}'' # post
      \<and> CHR ''{'' \<notin> set pre \<and> CHR ''}'' \<notin> set post)"
proof (cases "str_find (CHR ''{'') r \<ge> 0 \<and> str_rfind (CHR ''}'') r + 1 > str_find (CHR ''{'') r")
  case False
  then show ?thesis by (auto simp: json_text_def Let_def)
next
  case True
  then have a: "CHR ''{'' \<in> set r" by (auto simp: str_find_def split: if_splits)
  from True have b: "CHR ''}'' \<in> set r"
    by (auto simp: str_rfind_def str_find_def split: if_splits)
  from a obtain ys zs where 1: "r = ys @ CHR ''{'' # zs" "CHR ''{'' \<notin> set ys"
    by (meson split_list_first)
  from b obtain ys' zs' where 2: "r = ys' @ CHR ''}'' # zs'" "CHR ''}'' \<notin> set zs'"
    by (meson split_list_last)
  have f: "str_find (CHR ''{'') r = int (length ys)" using 1 by (simp add: str_find_first)
  have g: "str_rfind (CHR ''}'') r = int (length ys')" using 2 by (simp add: str_rfind_last)
  from True f g have "length ys \<le> length ys'" by simp
  moreover have "length ys \<noteq> length ys'"
  proof
    assume "length ys = length ys'"
    with 1(1) 2(1) have "CHR ''{'' = CHR ''}''" by (metis append_eq_append_conv list.inject)
    then show False by simp
  qed
  ultimately have lt: "length ys < length ys'" by simp
  have "ys @ CHR ''{'' # zs = ys' @ CHR ''}'' # zs'" using 1(1) 2(1) by simp
  then obtain us where
    "ys = ys' @ us \<and> us @ CHR ''{'' # zs = CHR ''}'' # zs' \<or>
     ys @ us = ys' \<and> CHR ''{'' # zs = us @ CHR ''}'' # zs'"
    unfolding append_eq_append_conv2 by blast
  with lt have us: "ys @ us = ys'" "CHR ''{'' # zs = us @ CHR ''}'' # zs'" by auto
  with lt have "us \<noteq> []" by auto
  with us(2) obtain mid where "us = CHR ''{'' # mid" by (cases us) auto
  with us 1 2 have "r = ys @ CHR ''{'' # mid @ CHR ''}'' # zs'" by simp
  with 1(2) 2(2) show ?thesis by blast
qed

lemma parse_command_reply:
  assumes "chat_completion env command_text w = (Inr content, w')"
  shows "parse_command env command_text w =
           ((case json_loads env (json_text (py_strip content)) of
               None \<Rightarrow> None
             | Some d \<Rightarrow> if validate_parsed_data d then Some d else None), w')"
  using assms by (simp add: parse_command_def split: option.splits)

text \<open>
  C9. The parser decodes the span of the reply from its first \<^verbatim>\<open>{\<close> to its last \<^verbatim>\<open>}\<close>,
  whatever prose or code fence stands before and after it; when the (stripped) reply has no
  \<^verbatim>\<open>{\<close> followed later by a \<^verbatim>\<open>}\<close>, it decodes the whole reply. The result is the decoded
  value when it passes validation, \<^verbatim>\<open>None\<close> otherwise.
\<close>

theorem parse_command_braced_span:
  assumes "chat_completion env command_text w = (Inr content, w')"
  shows
    "(\<forall>pre mid post.
        py_strip content = pre @ CHR ''{'' # mid @ CHR ''}'' # post
          \<and> CHR ''{'' \<notin> set pre \<and> CHR ''}'' \<notin> set post \<longrightarrow>
        parse_command env command_text w =
          ((case json_loads env (CHR ''{'' # mid @ [CHR ''}'']) of
              None \<Rightarrow> None
            | Some d \<Rightarrow> if validate_parsed_data d then Some d else None), w'))
     \<and> ((\<nexists>pre mid post. py_strip content = pre @ CHR ''{'' # mid @ CHR ''}'' # post) \<longrightarrow>
        parse_command env command_text w =
          ((case json_loads env (py_strip content) of
              None \<Rightarrow> None
            | Some d \<Rightarrow> if validate_parsed_data d then Some d else None), w'))"
proof (intro conjI allI impI)
  fix pre mid post
  assume "py_strip content = pre @ CHR ''{'' # mid @ CHR ''}'' # post
            \<and> CHR ''{'' \<notin> set pre \<and> CHR ''}'' \<notin> set post"
  then have "json_text (py_strip content) = CHR ''{'' # mid @ [CHR ''}'']"
    by (simp add: json_text_span)
  then show "parse_command env command_text w =
          ((case json_loads env (CHR ''{'' # mid @ [CHR ''}'']) of
              None \<Rightarrow> None
            | Some d \<Rightarrow> if validate_parsed_data d then Some d else None), w')"
    using parse_command_reply [OF assms] by simp
next
  assume "\<nexists>pre mid post. py_strip content = pre @ CHR ''{'' # mid @ CHR ''}'' # post"
  then have "json_text (py_strip content) = py_strip content"
    using json_text_cases [of "py_strip content"] by blast
  then show "parse_command env command_text w =
          ((case json_loads env (py_strip content) of
              None \<Rightarrow> None
            | Some d \<Rightarrow> if validate_parsed_data d then Some d else None), w')"
    using parse_command_reply [OF assms] by simp
qed

text \<open>The reply \<^verbatim>\<open>Sure! {"action":"create_app_registration","appName":"Foo"}\<close> yields the
  descriptor decoded from the braced span; a reply without braces is decoded whole.\<close>

theorem parse_command_braced_span_witness:
  "parse_command (stub_env (''Sure! '' @ foo_text) [(foo_text, foo_descriptor)] no_transport)
      ''Create an app registration named Foo'' 0 = (Some foo_descriptor, 1)
   \<and> parse_command (stub_env ''[1] '' [(''[1]'', JArr [JInt 1])] no_transport)
      ''Create an app registration named Foo'' 0 = (None, 1)"
proof -
  let ?E = "stub_env (''Sure! '' @ foo_text) [(foo_text, foo_descriptor)] no_transport"
  let ?F = "stub_env ''[1] '' [(''[1]'', JArr [JInt 1])] no_transport"
  let ?mid = "dq ''action'' @ '':'' @ dq ''create_app_registration'' @ '','' @
     dq ''appName'' @ '':'' @ dq ''Foo''"
  have c: "chat_completion ?E ''Create an app registration named Foo'' 0
             = (Inr (''Sure! '' @ foo_text), 1)"
    by (simp add: stub_env_def)
  have s: "py_strip (''Sure! '' @ foo_text) = ''Sure! '' @ CHR ''{'' # ?mid @ CHR ''}'' # []
             \<and> CHR ''{'' \<notin> set ''Sure! '' \<and> CHR ''}'' \<notin> set []"
    by (simp add: py_strip_def py_isspace_def foo_text_def dq_def)
  have d: "json_loads ?E (CHR ''{'' # ?mid @ [CHR ''}'']) = Some foo_descriptor"
    by (simp add: stub_env_def foo_text_def)
  have v: "validate_parsed_data foo_descriptor"
    by (simp add: validate_parsed_data_def foo_descriptor_def)
  have 1: "parse_command ?E ''Create an app registration named Foo'' 0 = (Some foo_descriptor, 1)"
    using parse_command_braced_span [OF c, THEN conjunct1, rule_format, OF s] d v by simp
  have c': "chat_completion ?F ''Create an app registration named Foo'' 0 = (Inr ''[1] '', 1)"
    by (simp add: stub_env_def)
  have s': "py_strip ''[1] '' = ''[1]''"
    by (simp add: py_strip_def py_isspace_def)
  have n: "\<nexists>pre mid post. py_strip ''[1] '' = pre @ CHR ''{'' # mid @ CHR ''}'' # post"
  proof
    assume "\<exists>pre mid post. py_strip ''[1] '' = pre @ CHR ''{'' # mid @ CHR ''}'' # post"
    then obtain pre mid post where "''[1]'' = pre @ CHR ''{'' # mid @ CHR ''}'' # post"
      unfolding s' by blast
    then have "CHR ''{'' \<in> set ''[1]''" by (metis in_set_conv_decomp)
    then show False by simp
  qed
  have 2: "parse_command ?F ''Create an app registration named Foo'' 0 = (None, 1)"
    using parse_command_braced_span [OF c', THEN conjunct2, rule_format, OF n]
    by (simp add: s' stub_env_def validate_parsed_data_def)
  from 1 2 show ?thesis by simp
qed

text \<open>
  C4. When the decoded value is a dict, parsing fails if it has no \<^verbatim>\<open>action\<close> key, fails if
  its action is \<^verbatim>\<open>create_app_registration\<close> and it has no \<^verbatim>\<open>appName\<close> key, and returns the
  decoded dict itself in every other case.
\<close>

theorem parse_command_validation:
  assumes "chat_completion env command_text w = (Inr content, w')"
      and "json_loads env (json_text (py_strip content)) = Some (JObj kvs)"
  shows
    "(''action'' \<notin> fst ` set kvs \<longrightarrow> parse_command env command_text w = (None, w'))
     \<and> (map_of kvs ''action'' = Some (JStr ''create_app_registration'')
          \<and> ''appName'' \<notin> fst ` set kvs \<longrightarrow>
        parse_command env command_text w = (None, w'))
     \<and> (''action'' \<in> fst ` set kvs
          \<and> (map_of kvs ''action'' = Some (JStr ''create_app_registration'')
               \<longrightarrow> ''appName'' \<in> fst ` set kvs) \<longrightarrow>
        parse_command env command_text w = (Some (JObj kvs), w'))"
  using parse_command_reply [OF assms(1)] assms(2)
  by (auto simp: validate_parsed_data_def)

text \<open>A reply without \<^verbatim>\<open>action\<close>, a \<^verbatim>\<open>create_app_registration\<close> without \<^verbatim>\<open>appName\<close>, and
  a valid descriptor.\<close>

theorem parse_command_validation_witness:
  "parse_command (stub_env (''{'' @ dq ''appName'' @ '':'' @ dq ''Foo'' @ ''}'')
       [(''{'' @ dq ''appName'' @ '':'' @ dq ''Foo'' @ ''}'', JObj [(''appName'', JStr ''Foo'')])]
       no_transport) ''Make Foo'' 0 = (None, 1)
   \<and> parse_command (stub_env (''{'' @ dq ''action'' @ '':'' @ dq ''create_app_registration'' @ ''}'')
       [(''{'' @ dq ''action'' @ '':'' @ dq ''create_app_registration'' @ ''}'',
         JObj [(''action'', JStr ''create_app_registration'')])]
       no_transport) ''Create an app registration'' 0 = (None, 1)
   \<and> parse_command (stub_env foo_text [(foo_text, foo_descriptor)] no_transport)
       ''Create an app registration named Foo'' 0 = (Some foo_descriptor, 1)"
proof -
  let ?t1 = "''{'' @ dq ''appName'' @ '':'' @ dq ''Foo'' @ ''}''"
  let ?t2 = "''{'' @ dq ''action'' @ '':'' @ dq ''create_app_registration'' @ ''}''"
  let ?E1 = "stub_env ?t1 [(?t1, JObj [(''appName'', JStr ''Foo'')])] no_transport"
  let ?E2 = "stub_env ?t2 [(?t2, JObj [(''action'', JStr ''create_app_registration'')])] no_transport"
  let ?E3 = "stub_env foo_text [(foo_text, foo_descriptor)] no_transport"
  have c1: "chat_completion ?E1 ''Make Foo'' 0 = (Inr ?t1, 1)"
    by (simp add: stub_env_def)
  have d1: "json_loads ?E1 (json_text (py_strip ?t1)) = Some (JObj [(''appName'', JStr ''Foo'')])"
    by (simp add: stub_env_def dq_def py_strip_def py_isspace_def json_text_def str_find_def
        str_rfind_def str_slice_def)
  have 1: "parse_command ?E1 ''Make Foo'' 0 = (None, 1)"
    using parse_command_validation [OF c1 d1, THEN conjunct1] by simp
  have c2: "chat_completion ?E2 ''Create an app registration'' 0 = (Inr ?t2, 1)"
    by (simp add: stub_env_def)
  have d2: "json_loads ?E2 (json_text (py_strip ?t2))
              = Some (JObj [(''action'', JStr ''create_app_registration'')])"
    by (simp add: stub_env_def dq_def py_strip_def py_isspace_def json_text_def str_find_def
        str_rfind_def str_slice_def)
  have 2: "parse_command ?E2 ''Create an app registration'' 0 = (None, 1)"
    using parse_command_validation [OF c2 d2, THEN conjunct2, THEN conjunct1] by simp
  have c3: "chat_completion ?E3 ''Create an app registration named Foo'' 0 = (Inr foo_text, 1)"
    by (simp add: stub_env_def)
  have d3: "json_loads ?E3 (json_text (py_strip foo_text))
              = Some (JObj [(''action'', JStr ''create_app_registration''), (''appName'', JStr ''Foo'')])"
    by (simp add: stub_env_def foo_text_def foo_descriptor_def dq_def py_strip_def py_isspace_def
        json_text_def str_find_def str_rfind_def str_slice_def)
  have 3: "parse_command ?E3 ''Create an app registration named Foo'' 0 = (Some foo_descriptor, 1)"
    using parse_command_validation [OF c3 d3, THEN conjunct2, THEN conjunct2]
    by (simp add: foo_descriptor_def)
  from 1 2 3 show ?thesis by simp
qed

section \<open>The token cache\<close>

lemma get_token_cached:
  assumes "token s = Some tok" "tok \<noteq> []" "token_expires s = Some expires"
    and "datetime_now env (world s) < expires"
  shows "get_token env s = (Inr tok, s)"
  using assms by (simp add: get_token_def Let_def)

lemma get_token_fresh:
  assumes "token s = None \<or> token s = Some [] \<or> token_expires s = None
           \<or> (\<exists>expires. token_expires s = Some expires \<and> expires \<le> datetime_now env (world s))"
  shows "get_token env s =
           (case credential_get_token env (world s) of
              (Inl e, w) \<Rightarrow> (Inl e, s\<lparr>world := w, token_fetches := Suc (token_fetches s)\<rparr>)
            | (Inr (tok, expires_on), w) \<Rightarrow>
                (Inr tok, s\<lparr>token := Some tok,
                            token_expires := Some (datetime_now env w + (expires_on - 300)),
                            world := w,
                            token_fetches := Suc (token_fetches s)\<rparr>))"
  using assms by (auto simp: get_token_def Let_def split: option.splits)

lemma make_request_after_token:
  assumes "get_token env s = (Inr tok, s1)" and "make_request env m ep d s = (r, s')"
  shows "token s' = token s1 \<and> token_expires s' = token_expires s1
         \<and> token_fetches s' = token_fetches s1
         \<and> sent s' = sent s1 @ [\<lparr> rq_method = m, rq_url = base_url @ ep,
                                   rq_authorization = ''Bearer '' @ tok, rq_json = d \<rparr>]"
  using assms by (auto simp: make_request_def sbind_def Let_def split: prod.splits sum.splits)

lemma make_request_no_token:
  assumes "get_token env s = (Inl e, s1)"
  shows "make_request env m ep d s = (Inl e, s1)"
  using assms by (simp add: make_request_def sbind_def)

text \<open>
  What the cache does, whatever the credential provider returns. Every request first asks
  for the token. When a non-empty token is cached and the clock is before the cached
  expiry, the cached token is used, the state is unchanged and the credential provider is
  not called. When no token is cached, or the clock has reached the cached expiry, the
  credential provider is called exactly once, and on success the new token is cached with
  the expiry: the clock after the call, plus \<^verbatim>\<open>expires_on\<close> seconds, less 300 seconds.
\<close>

lemma get_token_caches:
  "(\<forall>tok expires.
      token s = Some tok \<and> tok \<noteq> [] \<and> token_expires s = Some expires
        \<and> datetime_now env (world s) < expires \<longrightarrow>
      get_token env s = (Inr tok, s)
      \<and> (\<forall>m ep d r s'. make_request env m ep d s = (r, s') \<longrightarrow>
            token_fetches s' = token_fetches s \<and> token s' = Some tok
            \<and> token_expires s' = Some expires
            \<and> sent s' = sent s @ [\<lparr> rq_method = m, rq_url = base_url @ ep,
                                     rq_authorization = ''Bearer '' @ tok, rq_json = d \<rparr>]))
   \<and> (token s = None \<or> token s = Some [] \<or> token_expires s = None
        \<or> (\<exists>expires. token_expires s = Some expires \<and> expires \<le> datetime_now env (world s)) \<longrightarrow>
      (\<forall>r s'. get_token env s = (r, s') \<longrightarrow>
         token_fetches s' = Suc (token_fetches s)
         \<and> (\<forall>tok expires_on w.
               credential_get_token env (world s) = (Inr (tok, expires_on), w) \<longrightarrow>
               r = Inr tok \<and> token s' = Some tok
               \<and> token_expires s' = Some (datetime_now env w + (expires_on - 300))))
      \<and> (\<forall>m ep d r s'. make_request env m ep d s = (r, s') \<longrightarrow>
            token_fetches s' = Suc (token_fetches s)))"
proof (intro conjI allI impI)
  fix tok expires
  assume a: "token s = Some tok \<and> tok \<noteq> [] \<and> token_expires s = Some expires
        \<and> datetime_now env (world s) < expires"
  then show c: "get_token env s = (Inr tok, s)"
    by (simp add: get_token_cached)
  fix m ep d r s'
  assume "make_request env m ep d s = (r, s')"
  from make_request_after_token [OF c this] a
  show "token_fetches s' = token_fetches s" and "token s' = Some tok"
    and "token_expires s' = Some expires"
    and "sent s' = sent s @ [\<lparr> rq_method = m, rq_url = base_url @ ep,
                               rq_authorization = ''Bearer '' @ tok, rq_json = d \<rparr>]"
    by simp_all
next
  assume a: "token s = None \<or> token s = Some [] \<or> token_expires s = None
        \<or> (\<exists>expires. token_expires s = Some expires \<and> expires \<le> datetime_now env (world s))"
  note f = get_token_fresh [OF a]
  {
    fix r s'
    assume g: "get_token env s = (r, s')"
    with f show "token_fetches s' = Suc (token_fetches s)"
      by (auto split: prod.splits sum.splits)
    fix tok expires_on w
    assume "credential_get_token env (world s) = (Inr (tok, expires_on), w)"
    with f g show "r = Inr tok" and "token s' = Some tok"
      and "token_expires s' = Some (datetime_now env w + (expires_on - 300))"
      by auto
  }
  fix m ep d r s'
  assume mr: "make_request env m ep d s = (r, s')"
  obtain r1 s1 where g: "get_token env s = (r1, s1)" by (cases "get_token env s")
  with f have n: "token_fetches s1 = Suc (token_fetches s)"
    by (auto split: prod.splits sum.splits)
  show "token_fetches s' = Suc (token_fetches s)"
  proof (cases r1)
    case (Inl e)
    with g mr n show ?thesis by (simp add: make_request_no_token)
  next
    case (Inr tok)
    with g mr n show ?thesis using make_request_after_token by fastforce
  qed
qed

text \<open>
  C5. The cached expiry is not the token's expiry less the margin of five minutes that the
  comment at line 24 announces. \<^verbatim>\<open>expires_on\<close> is the instant at which the token expires, in
  seconds since the epoch, and line 25 adds it, as a duration, to the clock. A token
  fetched at second 1700000000 and expiring at second 1700003600 is cached with the expiry
  3400003301. A request made at second 1700003400, inside the margin, fetches no fresh
  token; a request made at second 1700090000, a day after the expiry, fetches none either
  and is sent with the expired token.
\<close>

theorem token_reused_past_expiry:
  "get_token (stub_env [] [] no_transport) (initial_state\<lparr>world := 1700000000\<rparr>)
     = (Inr ''token-1'', cached_state 1700000001)
   \<and> token_expires (cached_state 1700000001) = Some (1700000001 + 1700003600 - 300)
   \<and> get_token (stub_env [] [] no_transport) (cached_state 1700003400)
     = (Inr ''token-1'', cached_state 1700003400)
   \<and> token_fetches (snd (make_request (stub_env [] [] no_transport) ''GET'' ''/applications/obj-1''
        None (cached_state 1700003400))) = 1
   \<and> token_fetches (snd (make_request (stub_env [] [] no_transport) ''GET'' ''/applications/obj-1''
        None (cached_state 1700090000))) = 1
   \<and> map rq_authorization (sent (snd (make_request (stub_env [] [] no_transport) ''GET''
        ''/applications/obj-1'' None (cached_state 1700090000)))) = [''Bearer token-1'']"
proof -
  let ?E = "stub_env [] [] no_transport"
  have 1: "get_token ?E (initial_state\<lparr>world := 1700000000\<rparr>)
             = (Inr ''token-1'', cached_state 1700000001)"
    by (simp add: get_token_def stub_env_def initial_state_def cached_state_def)
  have 2: "token_expires (cached_state 1700000001) = Some (1700000001 + 1700003600 - 300)"
    by (simp add: cached_state_def)
  have c: "get_token ?E (cached_state w) = (Inr ''token-1'', cached_state w)"
    if "w < 3400003301" for w
    using that by (simp add: get_token_def stub_env_def cached_state_def)
  have m: "token_fetches (snd (make_request ?E ''GET'' ''/applications/obj-1'' None (cached_state w))) = 1
           \<and> map rq_authorization (sent (snd (make_request ?E ''GET'' ''/applications/obj-1''
                 None (cached_state w)))) = [''Bearer token-1'']"
    if "w < 3400003301" for w
    using make_request_after_token [OF c [OF that] surjective_pairing,
        of "''GET''" "''/applications/obj-1''" None]
    by (simp add: cached_state_def)
  from 1 2 c [of 1700003400] m [of 1700003400] m [of 1700090000] show ?thesis by simp
qed

section \<open>Merging permissions\<close>

lemma ebind_Inr_iff:
  "ebind m f = Inr b \<longleftrightarrow> (\<exists>a. m = Inr a \<and> f a = Inr b)"
  by (cases m) auto

lemma access_appended_refl: "access_appended g g"
  by (simp add: access_appended_def)

lemma access_appended_trans:
  assumes "access_appended g g1" and "access_appended g1 g2"
  shows "access_appended g g2"
proof -
  consider "g1 = g" | "g2 = g1"
    | kvs xs zs kvs1 xs1 zs1 where "g = JObj kvs" "map_of kvs ''resourceAccess'' = Some (JArr xs)"
        "g1 = JObj (AList.update ''resourceAccess'' (JArr (xs @ zs)) kvs)"
        "g1 = JObj kvs1" "map_of kvs1 ''resourceAccess'' = Some (JArr xs1)"
        "g2 = JObj (AList.update ''resourceAccess'' (JArr (xs1 @ zs1)) kvs1)"
    using assms unfolding access_appended_def by blast
  then show ?thesis
  proof cases
    case 1 with assms show ?thesis by simp
  next
    case 2 with assms show ?thesis by simp
  next
    case 3
    then have "xs1 = xs @ zs" by (auto simp: update_conv')
    with 3 have "g2 = JObj (AList.update ''resourceAccess'' (JArr (xs @ (zs @ zs1))) kvs)"
      by auto
    with 3 show ?thesis unfolding access_appended_def by blast
  qed
qed

lemma access_appended_other_key:
  assumes "access_appended g g'" and "k \<noteq> ''resourceAccess''"
  shows "py_getitem g' k = py_getitem g k"
  using assms by (auto simp: access_appended_def update_conv')

lemma access_appended_access:
  assumes "access_appended g g'" and "py_getitem g ''resourceAccess'' = Inr (JArr xs)"
  shows "\<exists>zs. py_getitem g' ''resourceAccess'' = Inr (JArr (xs @ zs))"
proof -
  from assms(1) consider "g' = g"
    | kvs ys zs where "g = JObj kvs" "map_of kvs ''resourceAccess'' = Some (JArr ys)"
        "g' = JObj (AList.update ''resourceAccess'' (JArr (ys @ zs)) kvs)"
    unfolding access_appended_def by blast
  then show ?thesis
  proof cases
    case 1
    with assms(2) have "py_getitem g' ''resourceAccess'' = Inr (JArr (xs @ []))" by simp
    then show ?thesis by blast
  next
    case 2
    with assms(2) have "ys = xs" by simp
    with 2 show ?thesis by (auto simp: update_conv')
  qed
qed

lemma any_id_append_True:
  "any_id pid xs = Inr True \<Longrightarrow> any_id pid (xs @ zs) = Inr True"
  by (induction xs) (auto split: sum.splits if_splits)

lemma any_id_append_new:
  "any_id pid xs = Inr False \<Longrightarrow>
   any_id pid (xs @ JObj [(''id'', pid), (''type'', t)] # zs) = Inr True"
  by (induction xs) (auto split: sum.splits if_splits)

lemma any_id_iff:
  "any_id pid xs = Inr present \<Longrightarrow> present = (\<exists>e\<in>set xs. py_getitem e ''id'' = Inr pid)"
  by (induction xs) (auto split: sum.splits if_splits)


lemma py_iter_any_id_list:
  assumes "py_iter access = Inr entries" and "any_id pid entries = Inr True"
  shows "access = JArr entries"
proof (cases access)
  case (JStr s)
  with assms show ?thesis by (cases s) auto
next
  case (JObj kvs)
  with assms show ?thesis by (cases kvs) auto
qed (use assms in auto)

lemma add_permission_InrE:
  assumes "add_permission gp g p = Inr g'"
  obtains (skipped) "g' = g" and "\<And>h. add_permission gp h p = Inr h"
  | (present) kind d pid xs where
      "permission_type p = Inr kind" "find_permission_def gp kind p = Inr (Some d)" "truthy d"
      "py_getitem d ''id'' = Inr pid" "py_getitem g ''resourceAccess'' = Inr (JArr xs)"
      "any_id pid xs = Inr True" "g' = g"
  | (appended) kind d pid kvs xs where
      "permission_type p = Inr kind" "find_permission_def gp kind p = Inr (Some d)" "truthy d"
      "py_getitem d ''id'' = Inr pid" "g = JObj kvs"
      "map_of kvs ''resourceAccess'' = Some (JArr xs)" "any_id pid xs = Inr False"
      "g' = JObj (AList.update ''resourceAccess''
                   (JArr (xs @ [JObj [(''id'', pid), (''type'', JStr (permission_type_value kind))]])) kvs)"
proof -
  from assms obtain kind found where k: "permission_type p = Inr kind"
    and f: "find_permission_def gp kind p = Inr found"
    by (auto simp: add_permission_def ebind_Inr_iff)
  show thesis
  proof (cases "\<exists>d. found = Some d \<and> truthy d")
    case False
    then have "\<And>h. add_permission gp h p = Inr h"
      using k f by (auto simp: add_permission_def split: option.splits)
    moreover from this assms have "g' = g" by simp
    ultimately show thesis by (rule skipped [rotated])
  next
    case True
    then obtain d where d: "found = Some d" "truthy d" by blast
    with assms k f obtain pid access entries present where
      pid: "py_getitem d ''id'' = Inr pid" and a: "py_getitem g ''resourceAccess'' = Inr access"
      and e: "py_iter access = Inr entries" and p: "any_id pid entries = Inr present"
      and r: "(if present then Inr g else append_access g
                 (JObj [(''id'', pid), (''type'', JStr (permission_type_value kind))])) = Inr g'"
      by (auto simp: add_permission_def ebind_Inr_iff)
    show thesis
    proof (cases present)
      case True
      with e p have "access = JArr entries" by (simp add: py_iter_any_id_list)
      with True k f d pid a p r show thesis by (intro present [of kind d pid entries]) auto
    next
      case False
      with r a obtain xs kvs where "access = JArr xs" "g = JObj kvs"
        "g' = JObj (AList.update ''resourceAccess''
                   (JArr (xs @ [JObj [(''id'', pid), (''type'', JStr (permission_type_value kind))]])) kvs)"
        by (cases g; cases access) (auto simp: append_access_def split: option.splits)
      with False k f d pid a e p show thesis
        by (intro appended [of kind d pid kvs xs]) (auto split: option.splits)
    qed
  qed
qed

lemma add_permission_appended:
  assumes "add_permission gp g p = Inr g'"
  shows "access_appended g g'"
  using assms
proof (cases rule: add_permission_InrE)
  case skipped
  then show ?thesis by (simp add: access_appended_def)
next
  case present
  then show ?thesis by (simp add: access_appended_def)
next
  case appended
  then show ?thesis unfolding access_appended_def by blast
qed

lemma add_permission_settled:
  assumes "add_permission gp g p = Inr g'" and "access_appended g' h"
  shows "add_permission gp h p = Inr h"
  using assms(1)
proof (cases rule: add_permission_InrE)
  case skipped
  then show ?thesis by simp
next
  case (present kind d pid xs)
  with assms(2) obtain zs where "py_getitem h ''resourceAccess'' = Inr (JArr (xs @ zs))"
    using access_appended_access by blast
  with present show ?thesis
    by (simp add: add_permission_def any_id_append_True)
next
  case (appended kind d pid kvs xs)
  let ?e = "JObj [(''id'', pid), (''type'', JStr (permission_type_value kind))]"
  from appended have "py_getitem g' ''resourceAccess'' = Inr (JArr (xs @ [?e]))"
    by (simp add: update_conv')
  with assms(2) obtain zs where "py_getitem h ''resourceAccess'' = Inr (JArr ((xs @ [?e]) @ zs))"
    using access_appended_access by blast
  with appended show ?thesis
    by (simp add: add_permission_def any_id_append_new)
qed

lemma add_permissions_appended:
  "add_permissions gp g ps = Inr g' \<Longrightarrow> access_appended g g'"
proof (induction ps arbitrary: g)
  case Nil
  then show ?case by (simp add: access_appended_refl)
next
  case (Cons p ps)
  then obtain g1 where "add_permission gp g p = Inr g1" "add_permissions gp g1 ps = Inr g'"
    by (auto split: sum.splits)
  with Cons.IH show ?case
    using add_permission_appended access_appended_trans by blast
qed

lemma add_permissions_settled:
  "add_permissions gp g ps = Inr g' \<Longrightarrow> access_appended g' h \<Longrightarrow> add_permissions gp h ps = Inr h"
proof (induction ps arbitrary: g)
  case Nil
  then show ?case by simp
next
  case (Cons p ps)
  then obtain g1 where 1: "add_permission gp g p = Inr g1" and 2: "add_permissions gp g1 ps = Inr g'"
    by (auto split: sum.splits)
  from 2 have "access_appended g1 g'" by (rule add_permissions_appended)
  from this Cons.prems(2) have "access_appended g1 h" by (rule access_appended_trans)
  with 1 have "add_permission gp h p = Inr h" by (rule add_permission_settled)
  moreover from 2 Cons.prems(2) have "add_permissions gp h ps = Inr h" by (rule Cons.IH)
  ultimately show ?case by simp
qed

lemma find_graph_access_None:
  "find_graph_access xs = Inr None \<Longrightarrow> \<forall>x\<in>set xs. other_api x"
  by (induction xs) (auto simp: other_api_def split: sum.splits if_splits option.splits)

lemma find_graph_access_Some:
  "find_graph_access xs = Inr (Some (i, g)) \<Longrightarrow>
     i < length xs \<and> xs ! i = g \<and> py_getitem g ''resourceAppId'' = Inr (JStr graph_api_id)
     \<and> (\<forall>j<i. other_api (xs ! j))"
proof (induction xs arbitrary: i)
  case Nil
  then show ?case by simp
next
  case (Cons x xs)
  show ?case
  proof (cases "py_getitem x ''resourceAppId'' = Inr (JStr graph_api_id)")
    case True
    with Cons.prems show ?thesis by auto
  next
    case False
    with Cons.prems obtain i' where i': "i = Suc i'" "find_graph_access xs = Inr (Some (i', g))"
      and o: "other_api x"
      by (auto simp: other_api_def split: sum.splits if_splits option.splits)
    from Cons.IH [OF i'(2)] i'(1) o show ?thesis
      by (auto simp: less_Suc_eq_0_disj)
  qed
qed

lemma find_graph_access_first:
  "i < length xs \<Longrightarrow> py_getitem (xs ! i) ''resourceAppId'' = Inr (JStr graph_api_id) \<Longrightarrow>
   \<forall>j<i. other_api (xs ! j) \<Longrightarrow> find_graph_access xs = Inr (Some (i, xs ! i))"
proof (induction xs arbitrary: i)
  case Nil
  then show ?case by simp
next
  case (Cons x xs)
  show ?case
  proof (cases i)
    case 0
    with Cons.prems show ?thesis by simp
  next
    case (Suc i')
    with Cons.prems have "other_api x" by auto
    moreover from Suc Cons.prems have "find_graph_access xs = Inr (Some (i', xs ! i'))"
      by (intro Cons.IH) auto
    ultimately show ?thesis using Suc by (auto simp: other_api_def)
  qed
qed

lemma new_graph_access_not_other: "\<not> other_api new_graph_access"
  by (simp add: other_api_def new_graph_access_def)

lemma locate_graph_access_Inr:
  assumes "locate_graph_access ra = Inr (ras, position, g)"
  obtains xs i where "ra = JArr xs" "position = Some i" "i < length ras" "ras ! i = g"
    "py_getitem g ''resourceAppId'' = Inr (JStr graph_api_id)" "\<forall>j<i. other_api (ras ! j)"
    "ras = xs \<or> (ras = xs @ [new_graph_access] \<and> i = length xs \<and> (\<forall>x\<in>set xs. other_api x))"
proof -
  from assms obtain xs where xs: "ra = JArr xs"
    by (cases ra) (auto simp: locate_graph_access_def ebind_Inr_iff)
  with assms obtain found where f: "find_graph_access xs = Inr found"
    by (auto simp: locate_graph_access_def ebind_Inr_iff)
  show thesis
  proof (cases found)
    case None
    with f have o: "\<forall>x\<in>set xs. other_api x" by (simp add: find_graph_access_None)
    then have "new_graph_access \<notin> set xs" using new_graph_access_not_other by blast
    with assms xs f None have r: "ras = xs @ [new_graph_access]" "position = Some (length xs)"
      "g = new_graph_access"
      by (auto simp: locate_graph_access_def)
    show thesis
    proof (rule that [of xs "length xs"])
      show "\<forall>j<length xs. other_api (ras ! j)" using o r by (simp add: nth_append)
    qed (use xs r o in \<open>auto simp: new_graph_access_def\<close>)
  next
    case (Some a)
    obtain i g0 where a: "a = (i, g0)" by (cases a)
    with assms xs f Some have r: "ras = xs" "position = Some i" "g = g0"
      by (auto simp: locate_graph_access_def)
    from f Some a have "i < length xs \<and> xs ! i = g0
       \<and> py_getitem g0 ''resourceAppId'' = Inr (JStr graph_api_id) \<and> (\<forall>j<i. other_api (xs ! j))"
      by (simp add: find_graph_access_Some)
    with xs r show thesis by (intro that [of xs i]) auto
  qed
qed

lemma locate_graph_access_again:
  assumes "i < length ras" "py_getitem g ''resourceAppId'' = Inr (JStr graph_api_id)"
    and "\<forall>j<i. other_api (ras ! j)"
  shows "locate_graph_access (JArr (ras[i := g])) = Inr (ras[i := g], Some i, g)"
proof -
  have "find_graph_access (ras[i := g]) = Inr (Some (i, (ras[i := g]) ! i))"
    using assms by (intro find_graph_access_first) auto
  with assms(1) show ?thesis by (simp add: locate_graph_access_def)
qed

lemma merge_permissions_Inr:
  assumes "merge_permissions app gp perms = Inr ra'"
  obtains xs ras i g g' ps where "py_get app ''requiredResourceAccess'' (JArr []) = Inr (JArr xs)"
    "locate_graph_access (JArr xs) = Inr (ras, Some i, g)" "py_iter perms = Inr ps"
    "add_permissions gp g ps = Inr g'" "ra' = JArr (ras[i := g'])"
proof -
  from assms obtain ra ras position g ps g' where
    1: "py_get app ''requiredResourceAccess'' (JArr []) = Inr ra"
    and 2: "locate_graph_access ra = Inr (ras, position, g)"
    and 3: "py_iter perms = Inr ps" and 4: "add_permissions gp g ps = Inr g'"
    and 5: "ra' = JArr (case position of None \<Rightarrow> ras | Some i \<Rightarrow> ras[i := g'])"
    by (auto simp: merge_permissions_def ebind_Inr_iff)
  from 2 obtain xs i where "ra = JArr xs" "position = Some i"
    by (rule locate_graph_access_Inr)
  with 1 2 3 4 5 show thesis by (intro that [of xs ras i g ps g']) auto
qed

lemma merge_permissions_idem:
  assumes "merge_permissions app gp perms = Inr ra'"
    and "py_get app' ''requiredResourceAccess'' (JArr []) = Inr ra'"
  shows "merge_permissions app' gp perms = Inr ra'"
proof -
  from assms(1) obtain xs ras i g g' ps where
    l: "locate_graph_access (JArr xs) = Inr (ras, Some i, g)" and p: "py_iter perms = Inr ps"
    and a: "add_permissions gp g ps = Inr g'" and r: "ra' = JArr (ras[i := g'])"
    by (rule merge_permissions_Inr)
  from l have i: "i < length ras" and g: "py_getitem g ''resourceAppId'' = Inr (JStr graph_api_id)"
    and o: "\<forall>j<i. other_api (ras ! j)"
    by (auto elim: locate_graph_access_Inr)
  from a have ap: "access_appended g g'" by (rule add_permissions_appended)
  then have "py_getitem g' ''resourceAppId'' = py_getitem g ''resourceAppId''"
    by (rule access_appended_other_key) simp
  with g i o have "locate_graph_access (JArr (ras[i := g'])) = Inr (ras[i := g'], Some i, g')"
    by (intro locate_graph_access_again) auto
  moreover have "add_permissions gp g' ps = Inr g'"
    using a access_appended_refl by (rule add_permissions_settled)
  ultimately show ?thesis
    using assms(2) p r by (simp add: merge_permissions_def)
qed

lemma merge_permissions_frame:
  assumes "merge_permissions app gp perms = Inr ra'"
  obtains xs ras' where "py_get app ''requiredResourceAccess'' (JArr []) = Inr (JArr xs)"
    "ra' = JArr ras'" "length ras' = length xs \<or> length ras' = Suc (length xs)"
    "\<forall>j<length xs. ras' ! j = xs ! j \<or>
        (py_getitem (xs ! j) ''resourceAppId'' = Inr (JStr graph_api_id)
           \<and> access_appended (xs ! j) (ras' ! j))"
proof -
  from assms obtain xs ras i g g' ps where
    x: "py_get app ''requiredResourceAccess'' (JArr []) = Inr (JArr xs)"
    and l: "locate_graph_access (JArr xs) = Inr (ras, Some i, g)"
    and a: "add_permissions gp g ps = Inr g'" and r: "ra' = JArr (ras[i := g'])"
    by (rule merge_permissions_Inr)
  from a have ap: "access_appended g g'" by (rule add_permissions_appended)
  from l have i: "i < length ras" "ras ! i = g"
    and g: "py_getitem g ''resourceAppId'' = Inr (JStr graph_api_id)"
    and c: "ras = xs \<or> (ras = xs @ [new_graph_access] \<and> i = length xs)"
    by (auto elim: locate_graph_access_Inr)
  show thesis
  proof (rule that [OF x r])
    from c show "length (ras[i := g']) = length xs \<or> length (ras[i := g']) = Suc (length xs)"
      by auto
    show "\<forall>j<length xs. ras[i := g'] ! j = xs ! j \<or>
        (py_getitem (xs ! j) ''resourceAppId'' = Inr (JStr graph_api_id)
           \<and> access_appended (xs ! j) (ras[i := g'] ! j))"
    proof (intro allI impI)
      fix j assume j: "j < length xs"
      show "ras[i := g'] ! j = xs ! j \<or>
        (py_getitem (xs ! j) ''resourceAppId'' = Inr (JStr graph_api_id)
           \<and> access_appended (xs ! j) (ras[i := g'] ! j))"
      proof (cases "j = i")
        case True
        with j c have "ras = xs" by auto
        with True i g ap show ?thesis by auto
      next
        case False
        with j c show ?thesis by (auto simp: nth_append)
      qed
    qed
  qed
qed

section \<open>Classifying and resolving a permission\<close>

lemma length_split_char:
  "length (split_char c s) = Suc (length (filter (\<lambda>x. x = c) s))"
  by (induction s) (auto split: list.splits)

lemma split_char_no_sep: "c \<notin> set t \<Longrightarrow> split_char c t = [t]"
  by (induction t) auto

lemma last_split_char:
  "c \<notin> set t \<Longrightarrow> last (split_char c (pre @ c # t)) = t"
proof (induction pre)
  case Nil
  then show ?case by (simp add: split_char_no_sep)
next
  case (Cons x pre)
  have "length (split_char c (pre @ c # t)) \<ge> 2"
    by (simp add: length_split_char)
  then obtain part part' parts where "split_char c (pre @ c # t) = part # part' # parts"
    by (cases "split_char c (pre @ c # t)"; cases "tl (split_char c (pre @ c # t))") auto
  with Cons show ?case by auto
qed

lemma permission_type_str:
  "permission_type (JStr p) =
     Inr (if CHR ''.'' \<notin> set p \<or> (\<exists>pre. p = pre @ ''.All'') then Application else Delegated)"
proof (cases "CHR ''.'' \<in> set p")
  case False
  then show ?thesis by (simp add: permission_type_def)
next
  case True
  then obtain pre t where p: "p = pre @ CHR ''.'' # t" "CHR ''.'' \<notin> set t"
    by (meson split_list_last)
  then have l: "last (split_char (CHR ''.'') p) = t" by (simp add: last_split_char)
  have "(\<exists>pre'. p = pre' @ ''.All'') \<longleftrightarrow> t = ''All''"
  proof
    assume "\<exists>pre'. p = pre' @ ''.All''"
    then obtain pre' where "p = pre' @ CHR ''.'' # ''All''" by auto
    moreover have "CHR ''.'' \<notin> set ''All''" by simp
    ultimately have "last (split_char (CHR ''.'') p) = ''All''"
      using last_split_char [of "CHR ''.''" "''All''" pre'] by simp
    with l show "t = ''All''" by simp
  next
    assume "t = ''All''"
    with p show "\<exists>pre'. p = pre' @ ''.All''" by auto
  qed
  with True l show ?thesis by (simp add: permission_type_def)
qed

lemma find_by_value_Some:
  "find_by_value v cat = Inr (Some d) \<Longrightarrow>
     \<exists>before after. cat = before @ d # after \<and> py_getitem d ''value'' = Inr v
        \<and> (\<forall>c\<in>set before. py_getitem c ''value'' \<noteq> Inr v)"
proof (induction cat)
  case Nil
  then show ?case by simp
next
  case (Cons x cat)
  show ?case
  proof (cases "py_getitem x ''value'' = Inr v")
    case True
    with Cons.prems have "x = d" by simp
    with True have "x # cat = [] @ d # cat \<and> py_getitem d ''value'' = Inr v
        \<and> (\<forall>c\<in>set []. py_getitem c ''value'' \<noteq> Inr v)" by simp
    then show ?thesis by blast
  next
    case False
    with Cons.prems have "find_by_value v cat = Inr (Some d)"
      by (auto split: sum.splits if_splits)
    from Cons.IH [OF this] obtain before after where
      "cat = before @ d # after" "py_getitem d ''value'' = Inr v"
      "\<forall>c\<in>set before. py_getitem c ''value'' \<noteq> Inr v" by blast
    with False have "x # cat = (x # before) @ d # after \<and> py_getitem d ''value'' = Inr v
        \<and> (\<forall>c\<in>set (x # before). py_getitem c ''value'' \<noteq> Inr v)" by simp
    then show ?thesis by blast
  qed
qed

lemma find_by_value_None:
  "find_by_value v cat = Inr None \<Longrightarrow> \<forall>c\<in>set cat. py_getitem c ''value'' \<noteq> Inr v"
  by (induction cat) (auto split: sum.splits if_splits)

text \<open>
  C6, as the code has it. A requested permission string is classified as an application
  permission when it has no dot or ends in \<^verbatim>\<open>.All\<close>, and as a delegated permission when it
  has a dot and its last part is not \<^verbatim>\<open>All\<close>. An application permission is looked up in the
  catalog's \<^verbatim>\<open>appRoles\<close>, a delegated one in its \<^verbatim>\<open>oauth2PermissionScopes\<close>; the entry found is
  the first whose \<^verbatim>\<open>value\<close> equals the requested string, and none is found only when no
  entry has that value.
\<close>

theorem permission_classification:
  "permission_type (JStr p) =
     Inr (if CHR ''.'' \<notin> set p \<or> (\<exists>pre. p = pre @ ''.All'') then Application else Delegated)
   \<and> (\<forall>roles. map_of gp ''appRoles'' = Some (JArr roles) \<longrightarrow>
         find_permission_def (JObj gp) Application (JStr p) = find_by_value (JStr p) roles)
   \<and> (\<forall>scopes. map_of gp ''oauth2PermissionScopes'' = Some (JArr scopes) \<longrightarrow>
         find_permission_def (JObj gp) Delegated (JStr p) = find_by_value (JStr p) scopes)
   \<and> (\<forall>d. find_by_value (JStr p) cat = Inr (Some d) \<longrightarrow>
         (\<exists>before after. cat = before @ d # after \<and> py_getitem d ''value'' = Inr (JStr p)
            \<and> (\<forall>c\<in>set before. py_getitem c ''value'' \<noteq> Inr (JStr p))))
   \<and> (find_by_value (JStr p) cat = Inr None \<longrightarrow>
         (\<forall>c\<in>set cat. py_getitem c ''value'' \<noteq> Inr (JStr p)))"
  using permission_type_str [of p] find_by_value_Some [of "JStr p" cat] find_by_value_None [of "JStr p" cat]
  by (simp add: find_permission_def_def catalog_key_def)

text \<open>The string \<^verbatim>\<open>openid\<close> has no last part \<^verbatim>\<open>All\<close>, yet it is classified as an
  application permission: it is not looked up among the delegated scopes, where the
  catalog has it, and is skipped.\<close>

theorem permission_classification_counterexample:
  "last (split_char (CHR ''.'') ''openid'') \<noteq> ''All''
   \<and> permission_type (JStr ''openid'') = Inr Application
   \<and> find_permission_def graph_catalog Delegated (JStr ''openid'') = Inr (Some scope_openid)
   \<and> add_permission graph_catalog new_graph_access (JStr ''openid'') = Inr new_graph_access"
  by (simp add: permission_type_def find_permission_def_def catalog_key_def graph_catalog_def
      scope_openid_def scope_user_read_def role_sites_read_all_def add_permission_def)


text \<open>\<^verbatim>\<open>Sites.Read.All\<close> is resolved among the roles, \<^verbatim>\<open>User.Read\<close> among the scopes.\<close>

theorem permission_classification_witness:
  "permission_type (JStr ''Sites.Read.All'') = Inr Application
   \<and> find_permission_def graph_catalog Application (JStr ''Sites.Read.All'') = Inr (Some role_sites_read_all)
   \<and> py_getitem role_sites_read_all ''value'' = Inr (JStr ''Sites.Read.All'')
   \<and> permission_type (JStr ''User.Read'') = Inr Delegated
   \<and> find_permission_def graph_catalog Delegated (JStr ''User.Read'') = Inr (Some scope_user_read)
   \<and> find_by_value (JStr ''User.Read'') [role_sites_read_all] = Inr None"
proof -
  let ?roles = "[role_sites_read_all,
                    JObj [(''id'', JStr ''role-2''), (''value'', JStr ''Directory.Read.All'')]]"
  let ?scopes = "[scope_user_read, scope_openid]"
  let ?gp = "[(''appRoles'', JArr ?roles), (''oauth2PermissionScopes'', JArr ?scopes)]"
  have a: "\<exists>pre. ''Sites.Read.All'' = pre @ ''.All''"
    by (rule exI [of _ "''Sites.Read''"]) simp
  have b: "\<nexists>pre. ''User.Read'' = pre @ ''.All''"
  proof
    assume "\<exists>pre. ''User.Read'' = pre @ ''.All''"
    then obtain pre where "''User.Read'' = pre @ ''.All''" by blast
    then have "last ''User.Read'' = last (pre @ ''.All'')" by (rule arg_cong)
    then show False by simp
  qed
  have f1: "find_by_value (JStr ''Sites.Read.All'') ?roles = Inr (Some role_sites_read_all)"
    by (simp add: role_sites_read_all_def)
  have f2: "find_by_value (JStr ''User.Read'') ?scopes = Inr (Some scope_user_read)"
    by (simp add: scope_user_read_def)
  have f3: "find_by_value (JStr ''User.Read'') [role_sites_read_all] = Inr None"
    by (simp add: role_sites_read_all_def)
  note s = permission_classification [where p = "''Sites.Read.All''" and gp = ?gp and cat = ?roles]
  note u = permission_classification [where p = "''User.Read''" and gp = ?gp and cat = "[role_sites_read_all]"]
  from s a have 1: "permission_type (JStr ''Sites.Read.All'') = Inr Application" by simp
  from s f1 have 2: "find_permission_def graph_catalog Application (JStr ''Sites.Read.All'')
                       = Inr (Some role_sites_read_all)"
    by (simp add: graph_catalog_def)
  from s f1 have 3: "py_getitem role_sites_read_all ''value'' = Inr (JStr ''Sites.Read.All'')"
    by blast
  from u b have 4: "permission_type (JStr ''User.Read'') = Inr Delegated" by simp
  from u f2 have 5: "find_permission_def graph_catalog Delegated (JStr ''User.Read'')
                       = Inr (Some scope_user_read)"
    by (simp add: graph_catalog_def)
  from 1 2 3 4 5 f3 show ?thesis by simp
qed

section \<open>A call of add\_required\_permissions\<close>

lemma sbind_Inr: "m s = (Inr a, s1) \<Longrightarrow> sbind m f s = f a s1"
  by (simp add: sbind_def)

lemma sbind_Inl: "m s = (Inl e, s1) \<Longrightarrow> sbind m f s = (Inl e, s1)"
  by (simp add: sbind_def)

lemma sbind_lift_Inr: "sbind (lift (Inr a)) f s = f a s"
  by (simp add: sbind_def lift_def)

lemma sbind_lift_Inl: "sbind (lift (Inl e)) f s = (Inl e, s)"
  by (simp add: sbind_def lift_def)

lemma add_required_permissions_run:
  assumes "truthy perms"
    and "make_request env ''GET'' (application_endpoint env app_id) None s = (Inr app, s1)"
    and "make_request env ''GET'' catalog_endpoint None s1 = (Inr response, s2)"
    and "py_getitem response ''value'' = Inr v" and "py_first v = Inr gp"
  shows "add_required_permissions env app_id perms s =
     (case merge_permissions app gp perms of
        Inl e \<Rightarrow> (Inl e, s2)
      | Inr ra \<Rightarrow>
          (case make_request env ''PATCH'' (application_endpoint env app_id)
                  (Some (JObj [(''requiredResourceAccess'', ra)])) s2 of
             (Inl e, s3) \<Rightarrow> (Inl e, s3)
           | (Inr updated, s3) \<Rightarrow> (Inr True, s3)))"
  using assms
  by (simp add: add_required_permissions_def sbind_Inr sbind_lift_Inr sbind_lift_Inl
      split: sum.splits)
     (auto simp: sbind_def lift_def split: prod.splits sum.splits)

lemma find_by_value_unmatched:
  "\<forall>d\<in>set cat. \<exists>v. py_getitem d ''value'' = Inr v \<and> v \<noteq> perm \<Longrightarrow>
   find_by_value perm cat = Inr None"
  by (induction cat) auto

lemma add_permission_unmatched:
  assumes "py_get gp ''appRoles'' (JArr []) = Inr (JArr roles)"
    and "py_get gp ''oauth2PermissionScopes'' (JArr []) = Inr (JArr scopes)"
    and "\<forall>d\<in>set roles \<union> set scopes. \<exists>v. py_getitem d ''value'' = Inr v \<and> v \<noteq> JStr p"
  shows "add_permission gp g (JStr p) = Inr g"
proof -
  obtain kind where k: "permission_type (JStr p) = Inr kind"
    using permission_type_str by blast
  have "find_permission_def gp kind (JStr p) = Inr None"
    using assms by (cases kind) (simp_all add: find_permission_def_def catalog_key_def find_by_value_unmatched)
  with k show ?thesis by (simp add: add_permission_def)
qed

lemma add_permissions_skip:
  assumes "\<And>h. add_permission gp h p = Inr h"
  shows "add_permissions gp g (ps1 @ p # ps2) = add_permissions gp g (ps1 @ ps2)"
  using assms by (induction ps1 arbitrary: g) (auto split: sum.splits)

lemma merge_permissions_skip:
  assumes "\<And>h. add_permission gp h p = Inr h"
  shows "merge_permissions app gp (JArr (ps1 @ p # ps2)) = merge_permissions app gp (JArr (ps1 @ ps2))"
  using add_permissions_skip [OF assms] by (simp add: merge_permissions_def)

text \<open>
  C8. A requested permission string that matches no entry of the role catalog and of the
  scope catalog leaves the Microsoft Graph entry as it is, without an exception; the
  permissions after it are processed as if it had not been requested; and the call goes on
  to the update, which carries what the other permissions produce.
\<close>

theorem unmatched_permission_skipped:
  assumes "py_get gp ''appRoles'' (JArr []) = Inr (JArr roles)"
    and "py_get gp ''oauth2PermissionScopes'' (JArr []) = Inr (JArr scopes)"
    and "\<forall>d\<in>set roles \<union> set scopes. \<exists>v. py_getitem d ''value'' = Inr v \<and> v \<noteq> JStr p"
  shows
    "add_permission gp g (JStr p) = Inr g
     \<and> add_permissions gp g (ps1 @ JStr p # ps2) = add_permissions gp g (ps1 @ ps2)
     \<and> (\<forall>env app_id s app s1 response s2 v.
          make_request env ''GET'' (application_endpoint env app_id) None s = (Inr app, s1)
          \<and> make_request env ''GET'' catalog_endpoint None s1 = (Inr response, s2)
          \<and> py_getitem response ''value'' = Inr v \<and> py_first v = Inr gp \<longrightarrow>
          add_required_permissions env app_id (JArr (ps1 @ JStr p # ps2)) s =
            (case merge_permissions app gp (JArr (ps1 @ ps2)) of
               Inl e \<Rightarrow> (Inl e, s2)
             | Inr ra \<Rightarrow>
                 (case make_request env ''PATCH'' (application_endpoint env app_id)
                         (Some (JObj [(''requiredResourceAccess'', ra)])) s2 of
                    (Inl e, s3) \<Rightarrow> (Inl e, s3)
                  | (Inr updated, s3) \<Rightarrow> (Inr True, s3))))"
proof -
  have skip: "\<And>h. add_permission gp h (JStr p) = Inr h"
    using assms by (rule add_permission_unmatched)
  have t: "truthy (JArr (ps1 @ JStr p # ps2))" by simp
  have m: "\<And>app. merge_permissions app gp (JArr (ps1 @ JStr p # ps2))
                  = merge_permissions app gp (JArr (ps1 @ ps2))"
    using skip by (rule merge_permissions_skip)
  show ?thesis
  proof (intro conjI allI impI)
    show "add_permission gp g (JStr p) = Inr g" by (rule skip)
    show "add_permissions gp g (ps1 @ JStr p # ps2) = add_permissions gp g (ps1 @ ps2)"
      using skip by (rule add_permissions_skip)
  next
    fix env :: "'a env" and app_id s app s1 response s2 v
    assume "make_request env ''GET'' (application_endpoint env app_id) None s = (Inr app, s1)
          \<and> make_request env ''GET'' catalog_endpoint None s1 = (Inr response, s2)
          \<and> py_getitem response ''value'' = Inr v \<and> py_first v = Inr gp"
    then show "add_required_permissions env app_id (JArr (ps1 @ JStr p # ps2)) s =
            (case merge_permissions app gp (JArr (ps1 @ ps2)) of
               Inl e \<Rightarrow> (Inl e, s2)
             | Inr ra \<Rightarrow>
                 (case make_request env ''PATCH'' (application_endpoint env app_id)
                         (Some (JObj [(''requiredResourceAccess'', ra)])) s2 of
                    (Inl e, s3) \<Rightarrow> (Inl e, s3)
                  | (Inr updated, s3) \<Rightarrow> (Inr True, s3)))"
      using add_required_permissions_run [OF t, of env app_id s app s1 response s2 v gp]
      by (simp only: m)
  qed
qed


text \<open>\<^verbatim>\<open>Nope.Read.All\<close> is in neither catalog: it is skipped, \<^verbatim>\<open>Sites.Read.All\<close> after it is
  granted, and the update is sent.\<close>

theorem unmatched_permission_skipped_witness:
  "add_permission graph_catalog (graph_access_with []) (JStr ''Nope.Read.All'') = Inr (graph_access_with [])
   \<and> add_permissions graph_catalog (graph_access_with []) [JStr ''Nope.Read.All'', JStr ''Sites.Read.All'']
       = Inr (graph_access_with [JObj [(''id'', JStr ''role-1''), (''type'', JStr ''Role'')]])
   \<and> fst (add_required_permissions (stub_env [] [] (graph_stub (app_with [other_access]) secret_created))
         (JStr ''obj-1'') (JArr [JStr ''Nope.Read.All'', JStr ''Sites.Read.All'']) initial_state) = Inr True
   \<and> map rq_method (sent (snd (add_required_permissions
         (stub_env [] [] (graph_stub (app_with [other_access]) secret_created))
         (JStr ''obj-1'') (JArr [JStr ''Nope.Read.All'', JStr ''Sites.Read.All'']) initial_state)))
       = [''GET'', ''GET'', ''PATCH'']"
proof -
  let ?E = "stub_env [] [] (graph_stub (app_with [other_access]) secret_created)"
  let ?roles = "[role_sites_read_all,
                    JObj [(''id'', JStr ''role-2''), (''value'', JStr ''Directory.Read.All'')]]"
  let ?scopes = "[scope_user_read, scope_openid]"
  let ?s1 = "snd (make_request ?E ''GET'' (application_endpoint ?E (JStr ''obj-1'')) None initial_state)"
  let ?s2 = "snd (make_request ?E ''GET'' catalog_endpoint None ?s1)"
  have r: "py_get graph_catalog ''appRoles'' (JArr []) = Inr (JArr ?roles)"
    by (simp add: graph_catalog_def)
  have s: "py_get graph_catalog ''oauth2PermissionScopes'' (JArr []) = Inr (JArr ?scopes)"
    by (simp add: graph_catalog_def)
  have n: "\<forall>d\<in>set ?roles \<union> set ?scopes. \<exists>v. py_getitem d ''value'' = Inr v \<and> v \<noteq> JStr ''Nope.Read.All''"
    by (simp add: role_sites_read_all_def scope_user_read_def scope_openid_def)
  note skipped = unmatched_permission_skipped [OF r s n]
  have 1: "add_permission graph_catalog (graph_access_with []) (JStr ''Nope.Read.All'')
             = Inr (graph_access_with [])"
    using skipped [THEN conjunct1] .
  have "add_permissions graph_catalog (graph_access_with []) ([] @ JStr ''Nope.Read.All'' # [JStr ''Sites.Read.All''])
          = add_permissions graph_catalog (graph_access_with []) ([] @ [JStr ''Sites.Read.All''])"
    using skipped [THEN conjunct2, THEN conjunct1] .
  moreover have "add_permissions graph_catalog (graph_access_with []) [JStr ''Sites.Read.All'']
          = Inr (graph_access_with [JObj [(''id'', JStr ''role-1''), (''type'', JStr ''Role'')]])"
    by code_simp
  ultimately have 2: "add_permissions graph_catalog (graph_access_with [])
            [JStr ''Nope.Read.All'', JStr ''Sites.Read.All'']
          = Inr (graph_access_with [JObj [(''id'', JStr ''role-1''), (''type'', JStr ''Role'')]])"
    by simp
  have g1: "make_request ?E ''GET'' (application_endpoint ?E (JStr ''obj-1'')) None initial_state
              = (Inr (app_with [other_access]), ?s1)"
    by code_simp
  have g2: "make_request ?E ''GET'' catalog_endpoint None ?s1
              = (Inr (JObj [(''value'', JArr [graph_catalog])]), ?s2)"
    by code_simp
  have v: "py_getitem (JObj [(''value'', JArr [graph_catalog])]) ''value'' = Inr (JArr [graph_catalog])
            \<and> py_first (JArr [graph_catalog]) = Inr graph_catalog"
    by simp
  have run: "add_required_permissions ?E (JStr ''obj-1'')
               (JArr ([] @ JStr ''Nope.Read.All'' # [JStr ''Sites.Read.All''])) initial_state =
            (case merge_permissions (app_with [other_access]) graph_catalog
                    (JArr ([] @ [JStr ''Sites.Read.All''])) of
               Inl e \<Rightarrow> (Inl e, ?s2)
             | Inr ra \<Rightarrow>
                 (case make_request ?E ''PATCH'' (application_endpoint ?E (JStr ''obj-1''))
                         (Some (JObj [(''requiredResourceAccess'', ra)])) ?s2 of
                    (Inl e, s3) \<Rightarrow> (Inl e, s3)
                  | (Inr updated, s3) \<Rightarrow> (Inr True, s3)))"
    using skipped [THEN conjunct2, THEN conjunct2, rule_format, of ?E "JStr ''obj-1''" initial_state
        "app_with [other_access]" ?s1 "JObj [(''value'', JArr [graph_catalog])]" ?s2
        "JArr [graph_catalog]"] g1 g2 v
    by blast
  have 3: "fst (add_required_permissions ?E (JStr ''obj-1'')
               (JArr [JStr ''Nope.Read.All'', JStr ''Sites.Read.All'']) initial_state) = Inr True"
  proof -
    have "fst (case merge_permissions (app_with [other_access]) graph_catalog
                    (JArr ([] @ [JStr ''Sites.Read.All''])) of
               Inl e \<Rightarrow> (Inl e, ?s2)
             | Inr ra \<Rightarrow>
                 (case make_request ?E ''PATCH'' (application_endpoint ?E (JStr ''obj-1''))
                         (Some (JObj [(''requiredResourceAccess'', ra)])) ?s2 of
                    (Inl e, s3) \<Rightarrow> (Inl e, s3)
                  | (Inr updated, s3) \<Rightarrow> (Inr True, s3))) = Inr True"
      by code_simp
    with run show ?thesis by simp
  qed
  have 4: "map rq_method (sent (snd (add_required_permissions ?E
         (JStr ''obj-1'') (JArr [JStr ''Nope.Read.All'', JStr ''Sites.Read.All'']) initial_state)))
       = [''GET'', ''GET'', ''PATCH'']"
    by code_simp
  from 1 2 3 4 show ?thesis by simp
qed

section \<open>Idempotence and frame of the merge\<close>

lemma find_by_value_truthy:
  "find_by_value v cat = Inr (Some d) \<Longrightarrow> truthy d"
proof -
  assume "find_by_value v cat = Inr (Some d)"
  then have "py_getitem d ''value'' = Inr v"
    using find_by_value_Some by blast
  then show "truthy d" by (cases d) (auto split: option.splits)
qed

lemma find_permission_def_truthy:
  "find_permission_def gp kind perm = Inr (Some d) \<Longrightarrow> truthy d"
  by (auto simp: find_permission_def_def ebind_Inr_iff dest: find_by_value_truthy)

lemma add_permission_resolved:
  assumes "permission_type perm = Inr kind" "find_permission_def gp kind perm = Inr (Some d)"
    and "py_getitem d ''id'' = Inr pid" "map_of kvs ''resourceAccess'' = Some (JArr xs)"
    and "any_id pid xs = Inr present"
  shows "add_permission gp (JObj kvs) perm =
           Inr (if present then JObj kvs
                else JObj (AList.update ''resourceAccess''
                   (JArr (xs @ [JObj [(''id'', pid), (''type'', JStr (permission_type_value kind))]])) kvs))"
  using assms find_permission_def_truthy [OF assms(2)]
  by (simp add: add_permission_def append_access_def)

text \<open>
  C7. A resolved permission is appended to the Microsoft Graph entry's \<^verbatim>\<open>resourceAccess\<close>
  only when no entry of that list has its id. So when the list a call has computed is what
  the application holds at the next call with the same permissions and the same catalog,
  that call computes the same list again, and sends it: nothing is added a second time.
\<close>

theorem add_required_permissions_idempotent:
  "(\<forall>kind d pid kvs xs present.
      permission_type perm = Inr kind \<and> find_permission_def gp kind perm = Inr (Some d)
        \<and> py_getitem d ''id'' = Inr pid \<and> map_of kvs ''resourceAccess'' = Some (JArr xs)
        \<and> any_id pid xs = Inr present \<longrightarrow>
      present = (\<exists>e\<in>set xs. py_getitem e ''id'' = Inr pid)
      \<and> add_permission gp (JObj kvs) perm =
          Inr (if present then JObj kvs
               else JObj (AList.update ''resourceAccess''
                  (JArr (xs @ [JObj [(''id'', pid), (''type'', JStr (permission_type_value kind))]])) kvs)))
   \<and> (\<forall>ra'. merge_permissions app gp perms = Inr ra'
          \<and> py_get app' ''requiredResourceAccess'' (JArr []) = Inr ra' \<longrightarrow>
        merge_permissions app' gp perms = Inr ra')
   \<and> (\<forall>env app_id s s1 response s2 v ra'.
        truthy perms \<and> merge_permissions app gp perms = Inr ra'
          \<and> make_request env ''GET'' (application_endpoint env app_id) None s = (Inr app', s1)
          \<and> py_get app' ''requiredResourceAccess'' (JArr []) = Inr ra'
          \<and> make_request env ''GET'' catalog_endpoint None s1 = (Inr response, s2)
          \<and> py_getitem response ''value'' = Inr v \<and> py_first v = Inr gp \<longrightarrow>
        add_required_permissions env app_id perms s =
          (case make_request env ''PATCH'' (application_endpoint env app_id)
                  (Some (JObj [(''requiredResourceAccess'', ra')])) s2 of
             (Inl e, s3) \<Rightarrow> (Inl e, s3)
           | (Inr updated, s3) \<Rightarrow> (Inr True, s3)))"
proof (intro conjI allI impI)
  fix kind d pid kvs xs present
  assume a: "permission_type perm = Inr kind \<and> find_permission_def gp kind perm = Inr (Some d)
        \<and> py_getitem d ''id'' = Inr pid \<and> map_of kvs ''resourceAccess'' = Some (JArr xs)
        \<and> any_id pid xs = Inr present"
  then show "present = (\<exists>e\<in>set xs. py_getitem e ''id'' = Inr pid)"
    by (simp add: any_id_iff)
  from a show "add_permission gp (JObj kvs) perm =
          Inr (if present then JObj kvs
               else JObj (AList.update ''resourceAccess''
                  (JArr (xs @ [JObj [(''id'', pid), (''type'', JStr (permission_type_value kind))]])) kvs))"
    by (intro add_permission_resolved) auto
next
  fix ra'
  assume "merge_permissions app gp perms = Inr ra'
          \<and> py_get app' ''requiredResourceAccess'' (JArr []) = Inr ra'"
  then show "merge_permissions app' gp perms = Inr ra'"
    using merge_permissions_idem by blast
next
  fix env :: "'a env" and app_id s s1 response s2 v ra'
  assume a: "truthy perms \<and> merge_permissions app gp perms = Inr ra'
          \<and> make_request env ''GET'' (application_endpoint env app_id) None s = (Inr app', s1)
          \<and> py_get app' ''requiredResourceAccess'' (JArr []) = Inr ra'
          \<and> make_request env ''GET'' catalog_endpoint None s1 = (Inr response, s2)
          \<and> py_getitem response ''value'' = Inr v \<and> py_first v = Inr gp"
  then have "merge_permissions app' gp perms = Inr ra'"
    using merge_permissions_idem by blast
  with a show "add_required_permissions env app_id perms s =
          (case make_request env ''PATCH'' (application_endpoint env app_id)
                  (Some (JObj [(''requiredResourceAccess'', ra')])) s2 of
             (Inl e, s3) \<Rightarrow> (Inl e, s3)
           | (Inr updated, s3) \<Rightarrow> (Inr True, s3))"
    using add_required_permissions_run [of perms env app_id s app' s1 response s2 v gp]
    by simp
qed

text \<open>
  C10. When a call with a non-empty permissions list reaches its update, the list it sends
  has every entry of the fetched list at its position: unchanged, or, for the Microsoft
  Graph entry, the same dict with entries appended to its \<^verbatim>\<open>resourceAccess\<close>. At most one entry,
  the new Microsoft Graph entry, follows them. What is left of the call is that one update.
\<close>

theorem required_access_preserved:
  assumes "truthy perms"
    and "make_request env ''GET'' (application_endpoint env app_id) None s = (Inr app, s1)"
    and "make_request env ''GET'' catalog_endpoint None s1 = (Inr response, s2)"
    and "py_getitem response ''value'' = Inr v" and "py_first v = Inr gp"
    and "merge_permissions app gp perms = Inr ra'"
  shows
    "add_required_permissions env app_id perms s =
       (case make_request env ''PATCH'' (application_endpoint env app_id)
               (Some (JObj [(''requiredResourceAccess'', ra')])) s2 of
          (Inl e, s3) \<Rightarrow> (Inl e, s3)
        | (Inr updated, s3) \<Rightarrow> (Inr True, s3))
     \<and> (\<exists>xs ras'.
          py_get app ''requiredResourceAccess'' (JArr []) = Inr (JArr xs) \<and> ra' = JArr ras'
          \<and> (length ras' = length xs \<or> length ras' = Suc (length xs))
          \<and> (\<forall>j<length xs.
                ras' ! j = xs ! j
                \<or> (py_getitem (xs ! j) ''resourceAppId'' = Inr (JStr graph_api_id)
                     \<and> access_appended (xs ! j) (ras' ! j))))"
proof
  show "add_required_permissions env app_id perms s =
       (case make_request env ''PATCH'' (application_endpoint env app_id)
               (Some (JObj [(''requiredResourceAccess'', ra')])) s2 of
          (Inl e, s3) \<Rightarrow> (Inl e, s3)
        | (Inr updated, s3) \<Rightarrow> (Inr True, s3))"
    using add_required_permissions_run [OF assms(1-5)] assms(6) by simp
  from assms(6) show "\<exists>xs ras'.
          py_get app ''requiredResourceAccess'' (JArr []) = Inr (JArr xs) \<and> ra' = JArr ras'
          \<and> (length ras' = length xs \<or> length ras' = Suc (length xs))
          \<and> (\<forall>j<length xs.
                ras' ! j = xs ! j
                \<or> (py_getitem (xs ! j) ''resourceAppId'' = Inr (JStr graph_api_id)
                     \<and> access_appended (xs ! j) (ras' ! j)))"
    by (rule merge_permissions_frame) blast
qed

text \<open>\<^verbatim>\<open>Sites.Read.All\<close> granted to an application that has it already: the list computed
  and sent is the list the application holds.\<close>

theorem add_required_permissions_idempotent_witness:
  "merge_permissions (app_with [other_access]) graph_catalog (JArr [JStr ''Sites.Read.All''])
     = Inr (JArr [other_access, graph_access_with [role_1_access]])
   \<and> merge_permissions (app_with [other_access, graph_access_with [role_1_access]]) graph_catalog
       (JArr [JStr ''Sites.Read.All''])
     = Inr (JArr [other_access, graph_access_with [role_1_access]])
   \<and> add_permission graph_catalog (graph_access_with [role_1_access]) (JStr ''Sites.Read.All'')
     = Inr (graph_access_with [role_1_access])
   \<and> add_permission graph_catalog (graph_access_with []) (JStr ''Sites.Read.All'')
     = Inr (graph_access_with [role_1_access])
   \<and> rq_json (last (sent (snd (add_required_permissions
         (stub_env [] [] (graph_stub (app_with [other_access, graph_access_with [role_1_access]])
            secret_created))
         (JStr ''obj-1'') (JArr [JStr ''Sites.Read.All'']) initial_state))))
     = Some (JObj [(''requiredResourceAccess'',
                    JArr [other_access, graph_access_with [role_1_access]])])"
proof -
  let ?L = "[other_access, graph_access_with [role_1_access]]"
  let ?perms = "JArr [JStr ''Sites.Read.All'']"
  let ?E = "stub_env [] [] (graph_stub (app_with ?L) secret_created)"
  let ?s1 = "snd (make_request ?E ''GET'' (application_endpoint ?E (JStr ''obj-1'')) None initial_state)"
  let ?s2 = "snd (make_request ?E ''GET'' catalog_endpoint None ?s1)"
  note idem = add_required_permissions_idempotent
    [where perm = "JStr ''Sites.Read.All''" and gp = graph_catalog
       and app = "app_with [other_access]" and perms = ?perms and app' = "app_with ?L"]
  have m: "merge_permissions (app_with [other_access]) graph_catalog ?perms = Inr (JArr ?L)"
    by code_simp
  have a: "py_get (app_with ?L) ''requiredResourceAccess'' (JArr []) = Inr (JArr ?L)"
    by (simp add: app_with_def)
  have 2: "merge_permissions (app_with ?L) graph_catalog ?perms = Inr (JArr ?L)"
    using idem [THEN conjunct2, THEN conjunct1, rule_format, of "JArr ?L"] m a by blast
  have k: "permission_type (JStr ''Sites.Read.All'') = Inr Application
        \<and> find_permission_def graph_catalog Application (JStr ''Sites.Read.All'') = Inr (Some role_sites_read_all)
        \<and> py_getitem role_sites_read_all ''id'' = Inr (JStr ''role-1'')"
    by code_simp
  have p: "map_of [(''resourceAppId'', JStr graph_api_id), (''resourceAccess'', JArr [role_1_access])]
             ''resourceAccess'' = Some (JArr [role_1_access])
           \<and> any_id (JStr ''role-1'') [role_1_access] = Inr True"
    by (simp add: role_1_access_def)
  have 3: "add_permission graph_catalog (graph_access_with [role_1_access]) (JStr ''Sites.Read.All'')
             = Inr (graph_access_with [role_1_access])"
    using idem [THEN conjunct1, rule_format, of Application role_sites_read_all "JStr ''role-1''"
        "[(''resourceAppId'', JStr graph_api_id), (''resourceAccess'', JArr [role_1_access])]"
        "[role_1_access]" True] k p
    by (simp add: graph_access_with_def)
  have q: "map_of [(''resourceAppId'', JStr graph_api_id), (''resourceAccess'', JArr [])]
             ''resourceAccess'' = Some (JArr [])
           \<and> any_id (JStr ''role-1'') [] = Inr False"
    by simp
  have 4: "add_permission graph_catalog (graph_access_with []) (JStr ''Sites.Read.All'')
             = Inr (graph_access_with [role_1_access])"
    using idem [THEN conjunct1, rule_format, of Application role_sites_read_all "JStr ''role-1''"
        "[(''resourceAppId'', JStr graph_api_id), (''resourceAccess'', JArr [])]" "[]" False] k q
    by (simp add: graph_access_with_def role_1_access_def permission_type_value_def)
  have g1: "make_request ?E ''GET'' (application_endpoint ?E (JStr ''obj-1'')) None initial_state
              = (Inr (app_with ?L), ?s1)"
    by code_simp
  have g2: "make_request ?E ''GET'' catalog_endpoint None ?s1
              = (Inr (JObj [(''value'', JArr [graph_catalog])]), ?s2)"
    by code_simp
  have v: "py_getitem (JObj [(''value'', JArr [graph_catalog])]) ''value'' = Inr (JArr [graph_catalog])
            \<and> py_first (JArr [graph_catalog]) = Inr graph_catalog \<and> truthy ?perms"
    by simp
  have run: "add_required_permissions ?E (JStr ''obj-1'') ?perms initial_state =
          (case make_request ?E ''PATCH'' (application_endpoint ?E (JStr ''obj-1''))
                  (Some (JObj [(''requiredResourceAccess'', JArr ?L)])) ?s2 of
             (Inl e, s3) \<Rightarrow> (Inl e, s3)
           | (Inr updated, s3) \<Rightarrow> (Inr True, s3))"
    using idem [THEN conjunct2, THEN conjunct2, rule_format, where env = ?E
        and app_id = "JStr ''obj-1''" and s = initial_state and ra' = "JArr ?L" and ?s1.0 = ?s1
        and response = "JObj [(''value'', JArr [graph_catalog])]" and ?s2.0 = ?s2
        and v = "JArr [graph_catalog]"]
      m a g1 g2 v
    by blast
  have "rq_json (last (sent (snd
          (case make_request ?E ''PATCH'' (application_endpoint ?E (JStr ''obj-1''))
                  (Some (JObj [(''requiredResourceAccess'', JArr ?L)])) ?s2 of
             (Inl e, s3) \<Rightarrow> (Inl e, s3)
           | (Inr updated, s3) \<Rightarrow> (Inr True, s3)))))
        = Some (JObj [(''requiredResourceAccess'', JArr ?L)])"
    by code_simp
  with run have 5: "rq_json (last (sent (snd (add_required_permissions ?E
         (JStr ''obj-1'') ?perms initial_state))))
     = Some (JObj [(''requiredResourceAccess'', JArr ?L)])"
    by simp
  from m 2 3 4 5 show ?thesis by simp
qed

text \<open>An application with an entry for another API and a Microsoft Graph entry holding one
  scope: the update keeps both and appends the role to the second.\<close>

theorem required_access_preserved_witness:
  "fst (add_required_permissions
         (stub_env [] [] (graph_stub (app_with [other_access, graph_access_with [scope_1_access]])
            secret_created))
         (JStr ''obj-1'') (JArr [JStr ''Sites.Read.All'']) initial_state) = Inr True
   \<and> rq_json (last (sent (snd (add_required_permissions
         (stub_env [] [] (graph_stub (app_with [other_access, graph_access_with [scope_1_access]])
            secret_created))
         (JStr ''obj-1'') (JArr [JStr ''Sites.Read.All'']) initial_state))))
     = Some (JObj [(''requiredResourceAccess'',
                    JArr [other_access, graph_access_with [scope_1_access, role_1_access]])])
   \<and> access_appended (graph_access_with [scope_1_access])
        (graph_access_with [scope_1_access, role_1_access])"
proof -
  let ?X = "[other_access, graph_access_with [scope_1_access]]"
  let ?L = "[other_access, graph_access_with [scope_1_access, role_1_access]]"
  let ?perms = "JArr [JStr ''Sites.Read.All'']"
  let ?E = "stub_env [] [] (graph_stub (app_with ?X) secret_created)"
  let ?s1 = "snd (make_request ?E ''GET'' (application_endpoint ?E (JStr ''obj-1'')) None initial_state)"
  let ?s2 = "snd (make_request ?E ''GET'' catalog_endpoint None ?s1)"
  have t: "truthy ?perms" by simp
  have g1: "make_request ?E ''GET'' (application_endpoint ?E (JStr ''obj-1'')) None initial_state
              = (Inr (app_with ?X), ?s1)"
    by code_simp
  have g2: "make_request ?E ''GET'' catalog_endpoint None ?s1
              = (Inr (JObj [(''value'', JArr [graph_catalog])]), ?s2)"
    by code_simp
  have v: "py_getitem (JObj [(''value'', JArr [graph_catalog])]) ''value'' = Inr (JArr [graph_catalog])"
    by simp
  have f: "py_first (JArr [graph_catalog]) = Inr graph_catalog" by simp
  have m: "merge_permissions (app_with ?X) graph_catalog ?perms = Inr (JArr ?L)"
    by code_simp
  note p = required_access_preserved [OF t g1 g2 v f m]
  have "fst (case make_request ?E ''PATCH'' (application_endpoint ?E (JStr ''obj-1''))
               (Some (JObj [(''requiredResourceAccess'', JArr ?L)])) ?s2 of
          (Inl e, s3) \<Rightarrow> (Inl e, s3)
        | (Inr updated, s3) \<Rightarrow> (Inr True, s3)) = Inr True"
    by code_simp
  with p have 1: "fst (add_required_permissions ?E (JStr ''obj-1'') ?perms initial_state) = Inr True"
    by simp
  have "rq_json (last (sent (snd
          (case make_request ?E ''PATCH'' (application_endpoint ?E (JStr ''obj-1''))
                  (Some (JObj [(''requiredResourceAccess'', JArr ?L)])) ?s2 of
             (Inl e, s3) \<Rightarrow> (Inl e, s3)
           | (Inr updated, s3) \<Rightarrow> (Inr True, s3)))))
        = Some (JObj [(''requiredResourceAccess'', JArr ?L)])"
    by code_simp
  with p have 2: "rq_json (last (sent (snd (add_required_permissions ?E
         (JStr ''obj-1'') ?perms initial_state))))
     = Some (JObj [(''requiredResourceAccess'', JArr ?L)])"
    by simp
  from p obtain xs ras' where x: "py_get (app_with ?X) ''requiredResourceAccess'' (JArr []) = Inr (JArr xs)"
    and r: "JArr ?L = JArr ras'"
    and j: "\<forall>j<length xs. ras' ! j = xs ! j
                \<or> (py_getitem (xs ! j) ''resourceAppId'' = Inr (JStr graph_api_id)
                     \<and> access_appended (xs ! j) (ras' ! j))"
    by blast
  from x have xs: "xs = ?X" by (simp add: app_with_def)
  from r have ras: "ras' = ?L" by simp
  have "graph_access_with [scope_1_access, role_1_access] \<noteq> graph_access_with [scope_1_access]"
    by (simp add: graph_access_with_def)
  with j [rule_format, of 1] xs ras
  have 3: "access_appended (graph_access_with [scope_1_access])
        (graph_access_with [scope_1_access, role_1_access])"
    by simp
  from 1 2 3 show ?thesis by simp
qed

section \<open>The orchestrator\<close>

lemma get_token_sent: "get_token env s = (r, s') \<Longrightarrow> sent s' = sent s"
  by (auto simp: get_token_def Let_def split: option.splits if_splits prod.splits sum.splits)

lemma sends_lift: "sends P (lift r)"
  by (simp add: sends_def lift_def)

lemma sends_sbind:
  assumes "sends P m" and "\<And>a. sends P (f a)"
  shows "sends P (sbind m f)"
  unfolding sends_def
proof (intro allI impI)
  fix s r s'
  assume a: "sbind m f s = (r, s')"
  obtain r1 s1 where m: "m s = (r1, s1)" by (cases "m s")
  with assms(1) obtain l1 where l1: "sent s1 = sent s @ l1" "\<forall>rq\<in>set l1. P rq"
    unfolding sends_def by blast
  show "\<exists>l. sent s' = sent s @ l \<and> (\<forall>rq\<in>set l. P rq)"
  proof (cases r1)
    case (Inl e)
    with a m have "s' = s1" by (simp add: sbind_def)
    with l1 show ?thesis by blast
  next
    case (Inr x)
    with a m have "f x s1 = (r, s')" by (simp add: sbind_def)
    with assms(2) obtain l2 where "sent s' = sent s1 @ l2" "\<forall>rq\<in>set l2. P rq"
      unfolding sends_def by blast
    with l1 have "sent s' = sent s @ (l1 @ l2) \<and> (\<forall>rq\<in>set (l1 @ l2). P rq)" by auto
    then show ?thesis by blast
  qed
qed

lemma sends_make_request:
  assumes "\<And>rq. rq_method rq = m \<Longrightarrow> rq_url rq = base_url @ ep \<Longrightarrow> P rq"
  shows "sends P (make_request env m ep d)"
  unfolding sends_def
proof (intro allI impI)
  fix s r s'
  assume a: "make_request env m ep d s = (r, s')"
  obtain r1 s1 where g: "get_token env s = (r1, s1)" by (cases "get_token env s")
  then have s1: "sent s1 = sent s" by (rule get_token_sent)
  show "\<exists>l. sent s' = sent s @ l \<and> (\<forall>rq\<in>set l. P rq)"
  proof (cases r1)
    case (Inl e)
    with g a have "s' = s1" by (simp add: make_request_no_token)
    with s1 have "sent s' = sent s @ [] \<and> (\<forall>rq\<in>set []. P rq)" by simp
    then show ?thesis by blast
  next
    case (Inr tok)
    let ?rq = "\<lparr> rq_method = m, rq_url = base_url @ ep,
                 rq_authorization = ''Bearer '' @ tok, rq_json = d \<rparr>"
    from Inr g a have "sent s' = sent s1 @ [?rq]"
      using make_request_after_token by blast
    moreover have "P ?rq" by (rule assms) simp_all
    ultimately have "sent s' = sent s @ [?rq] \<and> (\<forall>rq\<in>set [?rq]. P rq)" using s1 by simp
    then show ?thesis by blast
  qed
qed

lemma sends_add_required_permissions:
  "sends (\<lambda>rq. rq_method rq \<noteq> ''POST'') (add_required_permissions env app_id perms)"
proof (cases "truthy perms")
  case False
  then show ?thesis by (simp add: add_required_permissions_def sends_lift)
next
  case True
  then show ?thesis
    unfolding add_required_permissions_def
    by (simp only: if_False not_True_eq_False)
      (intro sends_lift sends_sbind sends_make_request; simp)
qed

lemma sends_create_app_registration:
  "sends (\<lambda>rq. \<not> creates_service_principal rq) (create_app_registration env n d)"
  unfolding create_app_registration_def
  by (rule sends_make_request) (simp add: creates_service_principal_def)

lemma sends_create_client_secret:
  "sends (\<lambda>rq. \<not> creates_service_principal rq) (create_client_secret env app_id)"
proof -
  have "create_client_secret env app_id =
          (\<lambda>s. make_request env ''POST'' (application_endpoint env app_id @ ''/addPassword'')
             (Some (JObj
          [(''passwordCredential'', JObj
              [(''displayName'', JStr ''Default Secret''),
               (''endDateTime'',
                  JStr (isoformat env (datetime_now env (world s) + 365 * 86400)))])])) s)"
    by (rule ext) (simp add: create_client_secret_def)
  moreover have "\<And>d. sends (\<lambda>rq. \<not> creates_service_principal rq)
           (make_request env ''POST'' (application_endpoint env app_id @ ''/addPassword'') d)"
    by (rule sends_make_request)
      (simp add: creates_service_principal_def application_endpoint_def)
  ultimately show ?thesis
    unfolding sends_def by simp
qed

lemma sends_mono: "sends P act \<Longrightarrow> (\<And>rq. P rq \<Longrightarrow> Q rq) \<Longrightarrow> sends Q act"
  unfolding sends_def by blast

lemma sends_none:
  assumes "sends (\<lambda>rq. \<not> P rq) act" and "act s = (r, s')"
  shows "filter P (requests_since s s') = []"
proof -
  from assms obtain l where "sent s' = sent s @ l" "\<forall>rq\<in>set l. \<not> P rq"
    unfolding sends_def by blast
  then show ?thesis by (simp add: requests_since_def filter_empty_conv)
qed

lemma requests_since_trans:
  assumes "\<exists>l. sent s1 = sent s @ l" and "\<exists>l. sent s2 = sent s1 @ l"
  shows "requests_since s s2 = requests_since s s1 @ requests_since s1 s2"
  using assms by (auto simp: requests_since_def)

lemma sends_prefix: "sends P act \<Longrightarrow> act s = (r, s') \<Longrightarrow> \<exists>l. sent s' = sent s @ l"
  unfolding sends_def by blast

lemma agent_failure:
  "create_plan env n p d s = (Inl e, s') \<Longrightarrow>
   agent_create_app_registration env n p d s
     = (failure (''Error creating app registration: '' @ exn_str e), s')"
  by (simp add: agent_create_app_registration_def)

lemma lift_apply: "lift r s = (r, s)"
  by (simp add: lift_def)

text \<open>
  C1. When the four steps of the plan return (the permissions step being skipped for an
  empty list) and their results hold the fields the plan reads, the envelope is a success
  whose message names the application, whose data are the application's \<^verbatim>\<open>appId\<close> and \<^verbatim>\<open>id\<close>,
  the service principal's \<^verbatim>\<open>id\<close> and the secret's \<^verbatim>\<open>secretText\<close>, and which has two next steps.
\<close>

theorem create_app_registration_success:
  assumes "create_app_registration env app_name description s = (Inr app, s1)"
    and "py_getitem app ''id'' = Inr app_id" and "py_getitem app ''appId'' = Inr app_client_id"
    and "create_client_secret env app_id s1 = (Inr secret_result, s2)"
    and "py_getitem secret_result ''secretText'' = Inr client_secret"
    and "py_getitem secret_result ''id'' = Inr secret_id"
    and "(if truthy permissions then add_required_permissions env app_id permissions s2
          else (Inr True, s2)) = (Inr added, s3)"
    and "create_service_principal env app_client_id s3 = (Inr sp, s4)"
    and "py_getitem sp ''id'' = Inr sp_id"
  shows "agent_create_app_registration env app_name permissions description s =
           (\<lparr> success = True,
              message = ''App registration '' @ quoted (py_str (py_repr env) app_name)
                          @ '' created successfully.'',
              data = Some [(''applicationId'', app_client_id),
                           (''objectId'', app_id),
                           (''servicePrincipalId'', sp_id),
                           (''clientSecret'', client_secret)],
              nextSteps = Some [''Store the client secret securely (it won't be shown again).'',
                                ''Admin consent may be required for application permissions.''] \<rparr>,
            s4)"
proof -
  have p: "(if truthy permissions then add_required_permissions env app_id permissions
            else lift (Inr True)) s2 = (Inr added, s3)"
    using assms(7) by (simp add: lift_def split: if_splits)
  show ?thesis
    using assms(1-6,8,9) p
    by (simp add: agent_create_app_registration_def create_plan_def sbind_def lift_apply)
qed


text \<open>\<^verbatim>\<open>create_app_registration("Foo", ["Sites.Read.All"], "desc")\<close> against the stub.\<close>

theorem create_app_registration_success_witness:
  "fst (agent_create_app_registration (stub_env [] [] (graph_stub (app_with []) secret_created))
          (JStr ''Foo'') (JArr [JStr ''Sites.Read.All'']) (JStr ''desc'') initial_state) =
     \<lparr> success = True,
       message = ''App registration '' @ quoted ''Foo'' @ '' created successfully.'',
       data = Some [(''applicationId'', JStr ''client-1''),
                    (''objectId'', JStr ''obj-1''),
                    (''servicePrincipalId'', JStr ''sp-1''),
                    (''clientSecret'', JStr ''s3cr3t'')],
       nextSteps = Some [''Store the client secret securely (it won't be shown again).'',
                         ''Admin consent may be required for application permissions.''] \<rparr>
   \<and> map rq_method (sent (snd (agent_create_app_registration
          (stub_env [] [] (graph_stub (app_with []) secret_created))
          (JStr ''Foo'') (JArr [JStr ''Sites.Read.All'']) (JStr ''desc'') initial_state)))
       = [''POST'', ''POST'', ''GET'', ''GET'', ''PATCH'', ''POST'']"
proof -
  let ?E = "stub_env [] [] (graph_stub (app_with []) secret_created)"
  let ?perms = "JArr [JStr ''Sites.Read.All'']"
  let ?s1 = "snd (create_app_registration ?E (JStr ''Foo'') (JStr ''desc'') initial_state)"
  let ?s2 = "snd (create_client_secret ?E (JStr ''obj-1'') ?s1)"
  let ?s3 = "snd (add_required_permissions ?E (JStr ''obj-1'') ?perms ?s2)"
  let ?s4 = "snd (create_service_principal ?E (JStr ''client-1'') ?s3)"
  have 1: "create_app_registration ?E (JStr ''Foo'') (JStr ''desc'') initial_state
             = (Inr app_created, ?s1)"
    by code_simp
  have 2: "py_getitem app_created ''id'' = Inr (JStr ''obj-1'')"
    and 3: "py_getitem app_created ''appId'' = Inr (JStr ''client-1'')"
    by (simp_all add: app_created_def)
  have 4: "create_client_secret ?E (JStr ''obj-1'') ?s1
             = (Inr (JObj [(''id'', JStr ''key-1''), (''secretText'', JStr ''s3cr3t'')]), ?s2)"
    by code_simp
  have 5: "py_getitem (JObj [(''id'', JStr ''key-1''), (''secretText'', JStr ''s3cr3t'')]) ''secretText''
             = Inr (JStr ''s3cr3t'')"
    and 6: "py_getitem (JObj [(''id'', JStr ''key-1''), (''secretText'', JStr ''s3cr3t'')]) ''id''
             = Inr (JStr ''key-1'')"
    by simp_all
  have "add_required_permissions ?E (JStr ''obj-1'') ?perms ?s2 = (Inr True, ?s3)"
    by code_simp
  then have 7: "(if truthy ?perms then add_required_permissions ?E (JStr ''obj-1'') ?perms ?s2
          else (Inr True, ?s2)) = (Inr True, ?s3)"
    by simp
  have 8: "create_service_principal ?E (JStr ''client-1'') ?s3
             = (Inr (JObj [(''id'', JStr ''sp-1'')]), ?s4)"
    by code_simp
  have 9: "py_getitem (JObj [(''id'', JStr ''sp-1'')]) ''id'' = Inr (JStr ''sp-1'')"
    by simp
  have r: "py_str (py_repr ?E) (JStr ''Foo'') = ''Foo''" by simp
  have l: "map rq_method (sent ?s4) = [''POST'', ''POST'', ''GET'', ''GET'', ''PATCH'', ''POST'']"
    by code_simp
  from create_app_registration_success [OF 1 2 3 4 5 6 7 8 9] r l
  show ?thesis by simp
qed

lemma requests_since_self: "requests_since s s = []"
  by (simp add: requests_since_def)

lemma no_sp_two:
  assumes "sends (\<lambda>rq. \<not> creates_service_principal rq) a1" "a1 s = (r1, s1)"
    and "sends (\<lambda>rq. \<not> creates_service_principal rq) a2" "a2 s1 = (r2, s2)"
  shows "filter creates_service_principal (requests_since s s2) = []"
proof -
  have "requests_since s s2 = requests_since s s1 @ requests_since s1 s2"
    using sends_prefix [OF assms(1,2)] sends_prefix [OF assms(3,4)]
    by (rule requests_since_trans)
  then show ?thesis
    using sends_none [OF assms(1,2)] sends_none [OF assms(3,4)] by simp
qed

lemma sends_permissions_step:
  "sends (\<lambda>rq. \<not> creates_service_principal rq)
     (if truthy permissions then add_required_permissions env app_id permissions
      else lift (Inr True))"
proof (cases "truthy permissions")
  case True
  have "sends (\<lambda>rq. \<not> creates_service_principal rq) (add_required_permissions env app_id permissions)"
    by (rule sends_mono [OF sends_add_required_permissions])
      (simp add: creates_service_principal_def)
  with True show ?thesis by simp
next
  case False
  then show ?thesis by (simp add: sends_lift)
qed


lemma no_sp_step1:
  assumes "create_app_registration env n d s = (r1, s1)"
  shows "filter creates_service_principal (requests_since s s1) = []"
  using sends_create_app_registration assms by (rule sends_none)

lemma no_sp_step2:
  assumes "create_app_registration env n d s = (r1, s1)"
    and "create_client_secret env app_id s1 = (r2, s2)"
  shows "filter creates_service_principal (requests_since s s2) = []"
  using sends_create_app_registration assms(1) sends_create_client_secret assms(2)
  by (rule no_sp_two)

lemma no_sp_step3:
  assumes "create_app_registration env n d s = (r1, s1)"
    and "create_client_secret env app_id s1 = (r2, s2)"
    and "(if truthy p then add_required_permissions env app_id p else lift (Inr True)) s2
           = (r3, s3)"
  shows "filter creates_service_principal (requests_since s s3) = []"
proof -
  have 12: "filter creates_service_principal (requests_since s s2) = []"
    using assms(1,2) by (rule no_sp_step2)
  have 23: "filter creates_service_principal (requests_since s2 s3) = []"
    using sends_permissions_step assms(3) by (rule sends_none)
  have "requests_since s s3 = requests_since s s2 @ requests_since s2 s3"
  proof (rule requests_since_trans)
    have "\<exists>l. sent s1 = sent s @ l"
      using sends_create_app_registration assms(1) by (rule sends_prefix)
    moreover have "\<exists>l. sent s2 = sent s1 @ l"
      using sends_create_client_secret assms(2) by (rule sends_prefix)
    ultimately show "\<exists>l. sent s2 = sent s @ l" by auto
    show "\<exists>l. sent s3 = sent s2 @ l"
      using sends_permissions_step assms(3) by (rule sends_prefix)
  qed
  with 12 23 show ?thesis by simp
qed

text \<open>Where a failing run of the plan has failed: before the request that creates the
  service principal, and then no such request was sent, or in that step.\<close>

lemma create_plan_failure_cases:
  assumes f: "create_plan env n p d s = (Inl e, s')"
  shows "filter creates_service_principal (requests_since s s') = []
         \<or> (\<exists>app s1 app_id app_client_id secret_result s2 client_secret secret_id added s3.
              create_app_registration env n d s = (Inr app, s1)
              \<and> py_getitem app ''id'' = Inr app_id \<and> py_getitem app ''appId'' = Inr app_client_id
              \<and> create_client_secret env app_id s1 = (Inr secret_result, s2)
              \<and> py_getitem secret_result ''secretText'' = Inr client_secret
              \<and> py_getitem secret_result ''id'' = Inr secret_id
              \<and> (if truthy p then add_required_permissions env app_id p s2
                   else (Inr True, s2)) = (Inr added, s3)
              \<and> (create_service_principal env app_client_id s3 = (Inl e, s')
                 \<or> (\<exists>sp. create_service_principal env app_client_id s3 = (Inr sp, s')
                      \<and> py_getitem sp ''id'' = Inl e)))"
proof -
  obtain r1 s1 where 1: "create_app_registration env n d s = (r1, s1)"
    by (cases "create_app_registration env n d s")
  note n1 = no_sp_step1 [OF 1]
  show ?thesis
  proof (cases r1)
    case (Inl e1)
    with 1 f have "s' = s1" by (simp add: create_plan_def sbind_def)
    with n1 show ?thesis by simp
  next
    case app: (Inr app)
    show ?thesis
    proof (cases "py_getitem app ''id''")
      case (Inl e1)
      with 1 app f have "s' = s1" by (simp add: create_plan_def sbind_def lift_apply)
      with n1 show ?thesis by simp
    next
      case app_id: (Inr app_id)
      show ?thesis
      proof (cases "py_getitem app ''appId''")
        case (Inl e1)
        with 1 app app_id f have "s' = s1" by (simp add: create_plan_def sbind_def lift_apply)
        with n1 show ?thesis by simp
      next
        case cid: (Inr app_client_id)
        obtain r2 s2 where 2: "create_client_secret env app_id s1 = (r2, s2)"
          by (cases "create_client_secret env app_id s1")
        note n2 = no_sp_step2 [OF 1 2]
        show ?thesis
        proof (cases r2)
          case (Inl e2)
          with 1 app app_id cid 2 f have "s' = s2"
            by (simp add: create_plan_def sbind_def lift_apply)
          with n2 show ?thesis by simp
        next
          case sec: (Inr secret_result)
          show ?thesis
          proof (cases "py_getitem secret_result ''secretText''")
            case (Inl e2)
            with 1 app app_id cid 2 sec f have "s' = s2"
              by (simp add: create_plan_def sbind_def lift_apply)
            with n2 show ?thesis by simp
          next
            case cs: (Inr client_secret)
            show ?thesis
            proof (cases "py_getitem secret_result ''id''")
              case (Inl e2)
              with 1 app app_id cid 2 sec cs f have "s' = s2"
                by (simp add: create_plan_def sbind_def lift_apply)
              with n2 show ?thesis by simp
            next
              case sid: (Inr secret_id)
              obtain r3 s3 where 3:
                "(if truthy p then add_required_permissions env app_id p else lift (Inr True)) s2
                   = (r3, s3)"
                by (cases "(if truthy p then add_required_permissions env app_id p
                            else lift (Inr True)) s2")
              note n3 = no_sp_step3 [OF 1 2 3]
              show ?thesis
              proof (cases r3)
                case (Inl e3)
                with 1 app app_id cid 2 sec cs sid 3 f have "s' = s3"
                  by (simp add: create_plan_def sbind_def lift_apply)
                with n3 show ?thesis by simp
              next
                case added: (Inr added)
                from 3 added have p3:
                  "(if truthy p then add_required_permissions env app_id p s2
                    else (Inr True, s2)) = (Inr added, s3)"
                  by (simp add: lift_def split: if_splits)
                obtain r4 s4 where 4: "create_service_principal env app_client_id s3 = (r4, s4)"
                  by (cases "create_service_principal env app_client_id s3")
                have reached: "create_app_registration env n d s = (Inr app, s1)
                    \<and> py_getitem app ''id'' = Inr app_id \<and> py_getitem app ''appId'' = Inr app_client_id
                    \<and> create_client_secret env app_id s1 = (Inr secret_result, s2)
                    \<and> py_getitem secret_result ''secretText'' = Inr client_secret
                    \<and> py_getitem secret_result ''id'' = Inr secret_id
                    \<and> (if truthy p then add_required_permissions env app_id p s2
                         else (Inr True, s2)) = (Inr added, s3)"
                  using 1 app app_id cid 2 sec cs sid p3 by simp
                show ?thesis
                proof (cases r4)
                  case (Inl e4)
                  with 1 app app_id cid 2 sec cs sid 3 added 4 f have "e = e4 \<and> s' = s4"
                    by (simp add: create_plan_def sbind_def lift_apply)
                  with 4 Inl have "create_service_principal env app_client_id s3 = (Inl e, s')"
                    by simp
                  with reached show ?thesis by blast
                next
                  case sp: (Inr sp)
                  show ?thesis
                  proof (cases "py_getitem sp ''id''")
                    case (Inl e4)
                    with 1 app app_id cid 2 sec cs sid 3 added 4 sp f have "e = e4 \<and> s' = s4"
                      by (simp add: create_plan_def sbind_def lift_apply)
                    with 4 sp Inl have "create_service_principal env app_client_id s3 = (Inr sp, s')
                        \<and> py_getitem sp ''id'' = Inl e"
                      by simp
                    with reached show ?thesis by blast
                  next
                    case (Inr sp_id)
                    with 1 app app_id cid 2 sec cs sid 3 added 4 sp f have False
                      by (simp add: create_plan_def sbind_def lift_apply)
                    then show ?thesis ..
                  qed
                qed
              qed
            qed
          qed
        qed
      qed
    qed
  qed
qed

text \<open>
  C2. Every failing run of the plan returns the failure envelope carrying the error's
  message, in the state reached when the exception was raised, and either it has sent no
  request that creates a service principal, or the first three steps had succeeded and it
  is the fourth, the creation of the service principal, that failed. Then, one conjunct
  for each place at which the plan can fail -- the four calls of the Graph client and the
  five reads of a field of their results: the failure there ends the plan with that
  envelope, in the state of that moment, so that no later step has run and nothing has
  been undone; when the place is before the fourth step, no request that creates a
  service principal has been sent.
\<close>

theorem create_plan_aborts:
  "(\<forall>e s'. create_plan env app_name permissions description s = (Inl e, s') \<longrightarrow>
      agent_create_app_registration env app_name permissions description s
        = (failure (''Error creating app registration: '' @ exn_str e), s')
      \<and> (filter creates_service_principal (requests_since s s') = []
         \<or> (\<exists>app s1 app_id app_client_id secret_result s2 client_secret secret_id added s3.
              create_app_registration env app_name description s = (Inr app, s1)
              \<and> py_getitem app ''id'' = Inr app_id \<and> py_getitem app ''appId'' = Inr app_client_id
              \<and> create_client_secret env app_id s1 = (Inr secret_result, s2)
              \<and> py_getitem secret_result ''secretText'' = Inr client_secret
              \<and> py_getitem secret_result ''id'' = Inr secret_id
              \<and> (if truthy permissions then add_required_permissions env app_id permissions s2
                   else (Inr True, s2)) = (Inr added, s3)
              \<and> (create_service_principal env app_client_id s3 = (Inl e, s')
                 \<or> (\<exists>sp. create_service_principal env app_client_id s3 = (Inr sp, s')
                      \<and> py_getitem sp ''id'' = Inl e)))))
   \<and> (\<forall>e s1.
        create_app_registration env app_name description s = (Inl e, s1) \<longrightarrow>
        agent_create_app_registration env app_name permissions description s
         = (failure (''Error creating app registration: '' @ exn_str e), s1)
        \<and> filter creates_service_principal (requests_since s s1) = [])
   \<and> (\<forall>app s1 e.
        create_app_registration env app_name description s = (Inr app, s1)
        \<and> py_getitem app ''id'' = Inl e \<longrightarrow>
        agent_create_app_registration env app_name permissions description s
         = (failure (''Error creating app registration: '' @ exn_str e), s1)
        \<and> filter creates_service_principal (requests_since s s1) = [])
   \<and> (\<forall>app s1 app_id e.
        create_app_registration env app_name description s = (Inr app, s1)
        \<and> py_getitem app ''id'' = Inr app_id
        \<and> py_getitem app ''appId'' = Inl e \<longrightarrow>
        agent_create_app_registration env app_name permissions description s
         = (failure (''Error creating app registration: '' @ exn_str e), s1)
        \<and> filter creates_service_principal (requests_since s s1) = [])
   \<and> (\<forall>app s1 app_id app_client_id e s2.
        create_app_registration env app_name description s = (Inr app, s1)
        \<and> py_getitem app ''id'' = Inr app_id
        \<and> py_getitem app ''appId'' = Inr app_client_id
        \<and> create_client_secret env app_id s1 = (Inl e, s2) \<longrightarrow>
        agent_create_app_registration env app_name permissions description s
         = (failure (''Error creating app registration: '' @ exn_str e), s2)
        \<and> filter creates_service_principal (requests_since s s2) = [])
   \<and> (\<forall>app s1 app_id app_client_id secret_result s2 e.
        create_app_registration env app_name description s = (Inr app, s1)
        \<and> py_getitem app ''id'' = Inr app_id
        \<and> py_getitem app ''appId'' = Inr app_client_id
        \<and> create_client_secret env app_id s1 = (Inr secret_result, s2)
        \<and> py_getitem secret_result ''secretText'' = Inl e \<longrightarrow>
        agent_create_app_registration env app_name permissions description s
         = (failure (''Error creating app registration: '' @ exn_str e), s2)
        \<and> filter creates_service_principal (requests_since s s2) = [])
   \<and> (\<forall>app s1 app_id app_client_id secret_result s2 client_secret e.
        create_app_registration env app_name description s = (Inr app, s1)
        \<and> py_getitem app ''id'' = Inr app_id
        \<and> py_getitem app ''appId'' = Inr app_client_id
        \<and> create_client_secret env app_id s1 = (Inr secret_result, s2)
        \<and> py_getitem secret_result ''secretText'' = Inr client_secret
        \<and> py_getitem secret_result ''id'' = Inl e \<longrightarrow>
        agent_create_app_registration env app_name permissions description s
         = (failure (''Error creating app registration: '' @ exn_str e), s2)
        \<and> filter creates_service_principal (requests_since s s2) = [])
   \<and> (\<forall>app s1 app_id app_client_id secret_result s2 client_secret secret_id e s3.
        create_app_registration env app_name description s = (Inr app, s1)
        \<and> py_getitem app ''id'' = Inr app_id
        \<and> py_getitem app ''appId'' = Inr app_client_id
        \<and> create_client_secret env app_id s1 = (Inr secret_result, s2)
        \<and> py_getitem secret_result ''secretText'' = Inr client_secret
        \<and> py_getitem secret_result ''id'' = Inr secret_id
        \<and> truthy permissions
        \<and> add_required_permissions env app_id permissions s2 = (Inl e, s3) \<longrightarrow>
        agent_create_app_registration env app_name permissions description s
         = (failure (''Error creating app registration: '' @ exn_str e), s3)
        \<and> filter creates_service_principal (requests_since s s3) = [])
   \<and> (\<forall>app s1 app_id app_client_id secret_result s2 client_secret secret_id added s3 e s4.
        create_app_registration env app_name description s = (Inr app, s1)
        \<and> py_getitem app ''id'' = Inr app_id
        \<and> py_getitem app ''appId'' = Inr app_client_id
        \<and> create_client_secret env app_id s1 = (Inr secret_result, s2)
        \<and> py_getitem secret_result ''secretText'' = Inr client_secret
        \<and> py_getitem secret_result ''id'' = Inr secret_id
        \<and> (if truthy permissions then add_required_permissions env app_id permissions s2
               else (Inr True, s2)) = (Inr added, s3)
        \<and> create_service_principal env app_client_id s3 = (Inl e, s4) \<longrightarrow>
        agent_create_app_registration env app_name permissions description s
         = (failure (''Error creating app registration: '' @ exn_str e), s4))
   \<and> (\<forall>app s1 app_id app_client_id secret_result s2 client_secret secret_id added s3 sp s4 e.
        create_app_registration env app_name description s = (Inr app, s1)
        \<and> py_getitem app ''id'' = Inr app_id
        \<and> py_getitem app ''appId'' = Inr app_client_id
        \<and> create_client_secret env app_id s1 = (Inr secret_result, s2)
        \<and> py_getitem secret_result ''secretText'' = Inr client_secret
        \<and> py_getitem secret_result ''id'' = Inr secret_id
        \<and> (if truthy permissions then add_required_permissions env app_id permissions s2
               else (Inr True, s2)) = (Inr added, s3)
        \<and> create_service_principal env app_client_id s3 = (Inr sp, s4)
        \<and> py_getitem sp ''id'' = Inl e \<longrightarrow>
        agent_create_app_registration env app_name permissions description s
         = (failure (''Error creating app registration: '' @ exn_str e), s4))"
proof (intro conjI allI impI)
  fix e s'
  assume f: "create_plan env app_name permissions description s = (Inl e, s')"
  then show "agent_create_app_registration env app_name permissions description s
        = (failure (''Error creating app registration: '' @ exn_str e), s')"
    by (rule agent_failure)
  from f show "filter creates_service_principal (requests_since s s') = []
         \<or> (\<exists>app s1 app_id app_client_id secret_result s2 client_secret secret_id added s3.
              create_app_registration env app_name description s = (Inr app, s1)
              \<and> py_getitem app ''id'' = Inr app_id \<and> py_getitem app ''appId'' = Inr app_client_id
              \<and> create_client_secret env app_id s1 = (Inr secret_result, s2)
              \<and> py_getitem secret_result ''secretText'' = Inr client_secret
              \<and> py_getitem secret_result ''id'' = Inr secret_id
              \<and> (if truthy permissions then add_required_permissions env app_id permissions s2
                   else (Inr True, s2)) = (Inr added, s3)
              \<and> (create_service_principal env app_client_id s3 = (Inl e, s')
                 \<or> (\<exists>sp. create_service_principal env app_client_id s3 = (Inr sp, s')
                      \<and> py_getitem sp ''id'' = Inl e)))"
    by (rule create_plan_failure_cases)
next
  fix e s1
  assume a: "create_app_registration env app_name description s = (Inl e, s1)"
  then have "create_plan env app_name permissions description s = (Inl e, s1)"
    by (simp add: create_plan_def sbind_def lift_apply)
  then show "agent_create_app_registration env app_name permissions description s
      = (failure (''Error creating app registration: '' @ exn_str e), s1)"
    by (rule agent_failure)
  from a show "filter creates_service_principal (requests_since s s1) = []"
    using no_sp_step1 by blast
next
  fix app s1 e
  assume a: "create_app_registration env app_name description s = (Inr app, s1)
      \<and> py_getitem app ''id'' = Inl e"
  then have "create_plan env app_name permissions description s = (Inl e, s1)"
    by (simp add: create_plan_def sbind_def lift_apply)
  then show "agent_create_app_registration env app_name permissions description s
      = (failure (''Error creating app registration: '' @ exn_str e), s1)"
    by (rule agent_failure)
  from a show "filter creates_service_principal (requests_since s s1) = []"
    using no_sp_step1 by blast
next
  fix app s1 app_id e
  assume a: "create_app_registration env app_name description s = (Inr app, s1)
      \<and> py_getitem app ''id'' = Inr app_id
      \<and> py_getitem app ''appId'' = Inl e"
  then have "create_plan env app_name permissions description s = (Inl e, s1)"
    by (simp add: create_plan_def sbind_def lift_apply)
  then show "agent_create_app_registration env app_name permissions description s
      = (failure (''Error creating app registration: '' @ exn_str e), s1)"
    by (rule agent_failure)
  from a show "filter creates_service_principal (requests_since s s1) = []"
    using no_sp_step1 by blast
next
  fix app s1 app_id app_client_id e s2
  assume a: "create_app_registration env app_name description s = (Inr app, s1)
      \<and> py_getitem app ''id'' = Inr app_id
      \<and> py_getitem app ''appId'' = Inr app_client_id
      \<and> create_client_secret env app_id s1 = (Inl e, s2)"
  then have "create_plan env app_name permissions description s = (Inl e, s2)"
    by (simp add: create_plan_def sbind_def lift_apply)
  then show "agent_create_app_registration env app_name permissions description s
      = (failure (''Error creating app registration: '' @ exn_str e), s2)"
    by (rule agent_failure)
  from a show "filter creates_service_principal (requests_since s s2) = []"
    using no_sp_step2 by blast
next
  fix app s1 app_id app_client_id secret_result s2 e
  assume a: "create_app_registration env app_name description s = (Inr app, s1)
      \<and> py_getitem app ''id'' = Inr app_id
      \<and> py_getitem app ''appId'' = Inr app_client_id
      \<and> create_client_secret env app_id s1 = (Inr secret_result, s2)
      \<and> py_getitem secret_result ''secretText'' = Inl e"
  then have "create_plan env app_name permissions description s = (Inl e, s2)"
    by (simp add: create_plan_def sbind_def lift_apply)
  then show "agent_create_app_registration env app_name permissions description s
      = (failure (''Error creating app registration: '' @ exn_str e), s2)"
    by (rule agent_failure)
  from a show "filter creates_service_principal (requests_since s s2) = []"
    using no_sp_step2 by blast
next
  fix app s1 app_id app_client_id secret_result s2 client_secret e
  assume a: "create_app_registration env app_name description s = (Inr app, s1)
      \<and> py_getitem app ''id'' = Inr app_id
      \<and> py_getitem app ''appId'' = Inr app_client_id
      \<and> create_client_secret env app_id s1 = (Inr secret_result, s2)
      \<and> py_getitem secret_result ''secretText'' = Inr client_secret
      \<and> py_getitem secret_result ''id'' = Inl e"
  then have "create_plan env app_name permissions description s = (Inl e, s2)"
    by (simp add: create_plan_def sbind_def lift_apply)
  then show "agent_create_app_registration env app_name permissions description s
      = (failure (''Error creating app registration: '' @ exn_str e), s2)"
    by (rule agent_failure)
  from a show "filter creates_service_principal (requests_since s s2) = []"
    using no_sp_step2 by blast
next
  fix app s1 app_id app_client_id secret_result s2 client_secret secret_id e s3
  assume a: "create_app_registration env app_name description s = (Inr app, s1)
      \<and> py_getitem app ''id'' = Inr app_id
      \<and> py_getitem app ''appId'' = Inr app_client_id
      \<and> create_client_secret env app_id s1 = (Inr secret_result, s2)
      \<and> py_getitem secret_result ''secretText'' = Inr client_secret
      \<and> py_getitem secret_result ''id'' = Inr secret_id
      \<and> truthy permissions
      \<and> add_required_permissions env app_id permissions s2 = (Inl e, s3)"
  then have "create_plan env app_name permissions description s = (Inl e, s3)"
    by (simp add: create_plan_def sbind_def lift_apply)
  then show "agent_create_app_registration env app_name permissions description s
      = (failure (''Error creating app registration: '' @ exn_str e), s3)"
    by (rule agent_failure)
  from a have "(if truthy permissions then add_required_permissions env app_id permissions
      else lift (Inr True)) s2 = (Inl e, s3)"
    by simp
  with a show "filter creates_service_principal (requests_since s s3) = []"
    using no_sp_step3 by blast
next
  fix app s1 app_id app_client_id secret_result s2 client_secret secret_id added s3 e s4
  assume a: "create_app_registration env app_name description s = (Inr app, s1)
      \<and> py_getitem app ''id'' = Inr app_id
      \<and> py_getitem app ''appId'' = Inr app_client_id
      \<and> create_client_secret env app_id s1 = (Inr secret_result, s2)
      \<and> py_getitem secret_result ''secretText'' = Inr client_secret
      \<and> py_getitem secret_result ''id'' = Inr secret_id
      \<and> (if truthy permissions then add_required_permissions env app_id permissions s2
               else (Inr True, s2)) = (Inr added, s3)
      \<and> create_service_principal env app_client_id s3 = (Inl e, s4)"
  then have "(if truthy permissions then add_required_permissions env app_id permissions
      else lift (Inr True)) s2 = (Inr added, s3)"
    by (simp add: lift_def split: if_splits)
  with a have "create_plan env app_name permissions description s = (Inl e, s4)"
    by (simp add: create_plan_def sbind_def lift_apply)
  then show "agent_create_app_registration env app_name permissions description s
      = (failure (''Error creating app registration: '' @ exn_str e), s4)"
    by (rule agent_failure)
next
  fix app s1 app_id app_client_id secret_result s2 client_secret secret_id added s3 sp s4 e
  assume a: "create_app_registration env app_name description s = (Inr app, s1)
      \<and> py_getitem app ''id'' = Inr app_id
      \<and> py_getitem app ''appId'' = Inr app_client_id
      \<and> create_client_secret env app_id s1 = (Inr secret_result, s2)
      \<and> py_getitem secret_result ''secretText'' = Inr client_secret
      \<and> py_getitem secret_result ''id'' = Inr secret_id
      \<and> (if truthy permissions then add_required_permissions env app_id permissions s2
               else (Inr True, s2)) = (Inr added, s3)
      \<and> create_service_principal env app_client_id s3 = (Inr sp, s4)
      \<and> py_getitem sp ''id'' = Inl e"
  then have "(if truthy permissions then add_required_permissions env app_id permissions
      else lift (Inr True)) s2 = (Inr added, s3)"
    by (simp add: lift_def split: if_splits)
  with a have "create_plan env app_name permissions description s = (Inl e, s4)"
    by (simp add: create_plan_def sbind_def lift_apply)
  then show "agent_create_app_registration env app_name permissions description s
      = (failure (''Error creating app registration: '' @ exn_str e), s4)"
    by (rule agent_failure)
qed

text \<open>Four failing runs of \<^verbatim>\<open>create_app_registration("Foo", ["Sites.Read.All"], "desc")\<close>. The
  secret request answered with status 204: the client returns the empty dict, reading
  \<^verbatim>\<open>secretText\<close> raises \<^verbatim>\<open>KeyError\<close>, two requests were sent and none of them creates a
  service principal. The secret request answered with status 400: likewise. A transport
  that is down. An application that cannot be read in the permissions step.\<close>

theorem create_plan_aborts_witness:
  "fst (agent_create_app_registration (stub_env [] [] (graph_stub (app_with []) no_content))
          (JStr ''Foo'') (JArr [JStr ''Sites.Read.All'']) (JStr ''desc'') initial_state)
     = failure (''Error creating app registration: '' @ quoted ''secretText'')
   \<and> map rq_url (sent (snd (agent_create_app_registration
          (stub_env [] [] (graph_stub (app_with []) no_content))
          (JStr ''Foo'') (JArr [JStr ''Sites.Read.All'']) (JStr ''desc'') initial_state)))
       = [base_url @ ''/applications'', base_url @ ''/applications/obj-1/addPassword'']
   \<and> filter creates_service_principal (sent (snd (agent_create_app_registration
          (stub_env [] [] (graph_stub (app_with []) no_content))
          (JStr ''Foo'') (JArr [JStr ''Sites.Read.All'']) (JStr ''desc'') initial_state))) = []
   \<and> fst (agent_create_app_registration (stub_env [] [] (graph_stub (app_with []) bad_request))
          (JStr ''Foo'') (JArr [JStr ''Sites.Read.All'']) (JStr ''desc'') initial_state)
     = failure ''Error creating app registration: 400 Client Error: Bad Request''
   \<and> map rq_url (sent (snd (agent_create_app_registration
          (stub_env [] [] (graph_stub (app_with []) bad_request))
          (JStr ''Foo'') (JArr [JStr ''Sites.Read.All'']) (JStr ''desc'') initial_state)))
       = [base_url @ ''/applications'', base_url @ ''/applications/obj-1/addPassword'']
   \<and> filter creates_service_principal (sent (snd (agent_create_app_registration
          (stub_env [] [] (graph_stub (app_with []) bad_request))
          (JStr ''Foo'') (JArr [JStr ''Sites.Read.All'']) (JStr ''desc'') initial_state))) = []
   \<and> fst (agent_create_app_registration (stub_env [] [] no_transport)
          (JStr ''Foo'') (JArr [JStr ''Sites.Read.All'']) (JStr ''desc'') initial_state)
     = failure ''Error creating app registration: connection refused''
   \<and> fst (agent_create_app_registration (stub_env [] [] (graph_stub JNull secret_created))
          (JStr ''Foo'') (JArr [JStr ''Sites.Read.All'']) (JStr ''desc'') initial_state)
     = failure (''Error creating app registration: '' @ quoted ''NoneType''
                  @ '' object has no attribute '' @ quoted ''get'')
   \<and> map rq_method (sent (snd (agent_create_app_registration
          (stub_env [] [] (graph_stub JNull secret_created))
          (JStr ''Foo'') (JArr [JStr ''Sites.Read.All'']) (JStr ''desc'') initial_state)))
       = [''POST'', ''POST'', ''GET'', ''GET'']"
proof -
  let ?A = "stub_env [] [] (graph_stub (app_with []) no_content)"
  let ?E = "stub_env [] [] (graph_stub (app_with []) bad_request)"
  let ?N = "stub_env [] [] no_transport"
  let ?G = "stub_env [] [] (graph_stub JNull secret_created)"
  let ?perms = "JArr [JStr ''Sites.Read.All'']"
  let ?a1 = "snd (create_app_registration ?A (JStr ''Foo'') (JStr ''desc'') initial_state)"
  let ?a2 = "snd (create_client_secret ?A (JStr ''obj-1'') ?a1)"
  have a: "create_app_registration ?A (JStr ''Foo'') (JStr ''desc'') initial_state
             = (Inr app_created, ?a1)
           \<and> py_getitem app_created ''id'' = Inr (JStr ''obj-1'')
           \<and> py_getitem app_created ''appId'' = Inr (JStr ''client-1'')
           \<and> create_client_secret ?A (JStr ''obj-1'') ?a1 = (Inr (JObj []), ?a2)
           \<and> py_getitem (JObj []) ''secretText'' = Inl (Exn KeyError (quoted ''secretText''))"
    by code_simp
  note aa = create_plan_aborts [where env = ?A and app_name = "JStr ''Foo''" and permissions = ?perms
      and description = "JStr ''desc''" and s = initial_state,
      THEN conjunct2, THEN conjunct2, THEN conjunct2, THEN conjunct2, THEN conjunct2,
      THEN conjunct1, rule_format, OF a]
  have au: "map rq_url (sent ?a2) = [base_url @ ''/applications'', base_url @ ''/applications/obj-1/addPassword'']"
    by code_simp
  have ai: "requests_since initial_state ?a2 = sent ?a2"
    by (simp add: requests_since_def initial_state_def)
  let ?s1 = "snd (create_app_registration ?E (JStr ''Foo'') (JStr ''desc'') initial_state)"
  let ?s2 = "snd (create_client_secret ?E (JStr ''obj-1'') ?s1)"
  have b: "create_app_registration ?E (JStr ''Foo'') (JStr ''desc'') initial_state
             = (Inr app_created, ?s1)
           \<and> py_getitem app_created ''id'' = Inr (JStr ''obj-1'')
           \<and> py_getitem app_created ''appId'' = Inr (JStr ''client-1'')
           \<and> create_client_secret ?E (JStr ''obj-1'') ?s1
             = (Inl (Exn HTTPError ''400 Client Error: Bad Request''), ?s2)"
    by code_simp
  note bb = create_plan_aborts [where env = ?E and app_name = "JStr ''Foo''" and permissions = ?perms
      and description = "JStr ''desc''" and s = initial_state,
      THEN conjunct2, THEN conjunct2, THEN conjunct2, THEN conjunct2, THEN conjunct1,
      rule_format, OF b]
  have bu: "map rq_url (sent ?s2) = [base_url @ ''/applications'', base_url @ ''/applications/obj-1/addPassword'']"
    by code_simp
  have bi: "requests_since initial_state ?s2 = sent ?s2"
    by (simp add: requests_since_def initial_state_def)
  let ?n1 = "snd (create_app_registration ?N (JStr ''Foo'') (JStr ''desc'') initial_state)"
  have n: "create_app_registration ?N (JStr ''Foo'') (JStr ''desc'') initial_state
             = (Inl (Exn OtherError ''connection refused''), ?n1)"
    by code_simp
  note nb = create_plan_aborts [where env = ?N and app_name = "JStr ''Foo''" and permissions = ?perms
      and description = "JStr ''desc''" and s = initial_state,
      THEN conjunct2, THEN conjunct1, rule_format, OF n]
  let ?g3 = "snd (create_plan ?G (JStr ''Foo'') ?perms (JStr ''desc'') initial_state)"
  have g: "create_plan ?G (JStr ''Foo'') ?perms (JStr ''desc'') initial_state
             = (Inl (Exn AttributeError (quoted ''NoneType'' @ '' object has no attribute ''
                  @ quoted ''get'')), ?g3)"
    by code_simp
  note gb = create_plan_aborts [where env = ?G and app_name = "JStr ''Foo''" and permissions = ?perms
      and description = "JStr ''desc''" and s = initial_state,
      THEN conjunct1, rule_format, OF g, THEN conjunct1]
  have m: "map rq_method (sent ?g3) = [''POST'', ''POST'', ''GET'', ''GET'']"
    by code_simp
  from aa au ai bb bu bi nb gb m show ?thesis by simp
qed

section \<open>The orchestration boundary\<close>

lemma sbind_InrE:
  assumes "sbind m f s = (Inr r, s')"
  obtains a s1 where "m s = (Inr a, s1)" "f a s1 = (Inr r, s')"
  using assms by (auto simp: sbind_def split: prod.splits sum.splits)

lemma create_plan_success:
  assumes "create_plan env n p d s = (Inr r, s')"
  shows "success r"
  using assms unfolding create_plan_def
  by (elim sbind_InrE) (auto simp: lift_def)

lemma agent_shape:
  assumes "agent_create_app_registration env n p d s = (r, s')"
  shows "success r \<or> r = failure (message r)"
  using assms create_plan_success [of env n p d s]
  by (auto simp: agent_create_app_registration_def failure_def split: prod.splits sum.splits)

lemma failure_shape: "failure msg = failure (message (failure msg))"
  by (simp add: failure_def)

lemma execute_shape:
  assumes "execute env d s = (Inr r, s')"
  shows "success r \<or> r = failure (message r)"
proof -
  from assms obtain action where a: "py_getitem d ''action'' = Inr action"
    by (auto simp: execute_def elim!: sbind_InrE simp: lift_def)
  show ?thesis
  proof (cases "action = JStr ''create_app_registration''")
    case False
    with assms a have "\<exists>msg. r = failure msg"
      by (auto simp: execute_def sbind_def lift_def split: if_splits)
    then show ?thesis using failure_shape by auto
  next
    case True
    with assms a obtain n pm ds s1 where
      "agent_create_app_registration env n pm ds s1 = (r, s')"
      by (auto simp: execute_def sbind_def lift_def split: sum.splits prod.splits)
    then show ?thesis by (rule agent_shape)
  qed
qed

lemma dispatch_shape:
  assumes "dispatch parser env c s = (Inr r, s')"
  shows "success r \<or> r = failure (message r)"
proof -
  obtain x w where p: "parser c (world s) = (x, w)"
    by (cases "parser c (world s)")
  from assms p obtain d where x: "x = Inr d"
    by (cases x) (auto simp: dispatch_def)
  show ?thesis
  proof (cases "truthy d")
    case False
    with assms p x have "r = failure ''Failed to parse command. Please try rephrasing.''"
      by (simp add: dispatch_def)
    then show ?thesis using failure_shape by auto
  next
    case True
    with assms p x have "execute env d (s\<lparr>world := w\<rparr>) = (Inr r, s')"
      by (auto simp: dispatch_def split: prod.splits sum.splits)
    then show ?thesis by (rule execute_shape)
  qed
qed

lemma dispatch_passes:
  assumes "dispatch parser env c s = (Inl (BaseExc b), s')"
  shows "\<exists>w. parser c (world s) = (Inl (BaseExc b), w)"
proof -
  obtain x w where p: "parser c (world s) = (x, w)"
    by (cases "parser c (world s)")
  with assms show ?thesis
    by (cases x) (auto simp: dispatch_def split: if_splits prod.splits sum.splits)
qed

lemma process_command_shape:
  assumes "process_command parser env c s = (r, s')"
  shows "(\<exists>result. r = Inr result \<and> (success result \<or> result = failure (message result)))
         \<or> (\<exists>b w. r = Inl (BaseExc b) \<and> parser c (world s) = (Inl (BaseExc b), w))"
proof -
  obtain x s1 where d: "dispatch parser env c s = (x, s1)"
    by (cases "dispatch parser env c s")
  show ?thesis
  proof (cases x)
    case (Inr result)
    with d have dr: "dispatch parser env c s = (Inr result, s1)" by simp
    with assms have r: "r = Inr result" by (simp add: process_command_def)
    from dr have "success result \<or> result = failure (message result)"
      by (rule dispatch_shape)
    with r show ?thesis by simp
  next
    case (Inl y)
    show ?thesis
    proof (cases y)
      case (Exc e)
      with d Inl have "dispatch parser env c s = (Inl (Exc e), s1)" by simp
      with assms have "r = Inr (failure (''Error processing command: '' @ exn_str e))"
        by (simp add: process_command_def)
      then show ?thesis by (simp add: failure_def)
    next
      case (BaseExc b)
      with d Inl have db: "dispatch parser env c s = (Inl (BaseExc b), s1)" by simp
      with assms have r: "r = Inl (BaseExc b)" by (simp add: process_command_def)
      from db obtain w where "parser c (world s) = (Inl (BaseExc b), w)"
        using dispatch_passes by fastforce
      with r show ?thesis by simp
    qed
  qed
qed

lemma openai_service_returns:
  "\<exists>d w. openai_service env c w0 = (Inr d, w)"
  by (auto simp: openai_service_def split: prod.splits option.splits)

text \<open>
  C3, as the code has it. An instance of \<^verbatim>\<open>Exception\<close> that escapes the parser, or that is
  raised while the parsed value is read, is caught by the handler of \<^verbatim>\<open>process_command\<close> and
  becomes the failure envelope \<^verbatim>\<open>Error processing command: \<close> followed by the error's text. An
  exception of a class outside \<^verbatim>\<open>Exception\<close> that escapes the parser leaves \<^verbatim>\<open>process_command\<close>.
  Whatever the parser does, \<^verbatim>\<open>process_command\<close> returns a success envelope or an envelope with
  \<^verbatim>\<open>success\<close> false, a message and nothing else, or lets through such an exception of the
  parser's, and nothing else: no instance of \<^verbatim>\<open>Exception\<close> leaves it. A value of the parser
  that is not truthy gives the failure asking to rephrase, and an exception raised
  anywhere in the plan gives the failure with that error's message. With the repository's
  parser, on the runs modelled for it, an envelope is returned for every command text; an
  exception of the model endpoint and a reply that does not decode give the failure asking
  to rephrase.
\<close>

theorem process_command_total:
  "(\<forall>e w. parser command_text (world s) = (Inl (Exc e), w) \<longrightarrow>
      process_command parser env command_text s
        = (Inr (failure (''Error processing command: '' @ exn_str e)), s\<lparr>world := w\<rparr>))
   \<and> (\<forall>parsed_data w e s'.
        parser command_text (world s) = (Inr parsed_data, w) \<and> truthy parsed_data
          \<and> execute env parsed_data (s\<lparr>world := w\<rparr>) = (Inl e, s') \<longrightarrow>
        process_command parser env command_text s
          = (Inr (failure (''Error processing command: '' @ exn_str e)), s'))
   \<and> (\<forall>b w. parser command_text (world s) = (Inl (BaseExc b), w) \<longrightarrow>
        process_command parser env command_text s = (Inl (BaseExc b), s\<lparr>world := w\<rparr>))
   \<and> (\<forall>r s'. process_command parser env command_text s = (r, s') \<longrightarrow>
        (\<exists>result. r = Inr result \<and> (success result \<or> result = failure (message result)))
        \<or> (\<exists>b w. r = Inl (BaseExc b) \<and> parser command_text (world s) = (Inl (BaseExc b), w)))
   \<and> (\<forall>parsed_data w.
        parser command_text (world s) = (Inr parsed_data, w) \<and> \<not> truthy parsed_data \<longrightarrow>
        process_command parser env command_text s
          = (Inr (failure ''Failed to parse command. Please try rephrasing.''), s\<lparr>world := w\<rparr>))
   \<and> (\<forall>kvs w app_name e s'.
        parser command_text (world s) = (Inr (JObj kvs), w)
          \<and> map_of kvs ''action'' = Some (JStr ''create_app_registration'')
          \<and> map_of kvs ''appName'' = Some app_name
          \<and> create_plan env app_name
               (case map_of kvs ''permissions'' of None \<Rightarrow> JArr [] | Some p \<Rightarrow> p)
               (case map_of kvs ''description'' of None \<Rightarrow> JStr [] | Some d \<Rightarrow> d)
               (s\<lparr>world := w\<rparr>) = (Inl e, s') \<longrightarrow>
        process_command parser env command_text s
          = (Inr (failure (''Error creating app registration: '' @ exn_str e)), s'))
   \<and> (\<exists>result s'. process_command (openai_service env) env command_text s = (Inr result, s')
          \<and> (success result \<or> result = failure (message result)))
   \<and> (\<forall>e w. chat_completion env command_text (world s) = (Inl e, w) \<longrightarrow>
        process_command (openai_service env) env command_text s
          = (Inr (failure ''Failed to parse command. Please try rephrasing.''), s\<lparr>world := w\<rparr>))
   \<and> (\<forall>content w. chat_completion env command_text (world s) = (Inr content, w)
          \<and> json_loads env (json_text (py_strip content)) = None \<longrightarrow>
        process_command (openai_service env) env command_text s
          = (Inr (failure ''Failed to parse command. Please try rephrasing.''), s\<lparr>world := w\<rparr>))"
proof (intro conjI allI impI)
  fix e w
  assume "parser command_text (world s) = (Inl (Exc e), w)"
  then show "process_command parser env command_text s
        = (Inr (failure (''Error processing command: '' @ exn_str e)), s\<lparr>world := w\<rparr>)"
    by (simp add: process_command_def dispatch_def)
next
  fix parsed_data w e s'
  assume "parser command_text (world s) = (Inr parsed_data, w) \<and> truthy parsed_data
          \<and> execute env parsed_data (s\<lparr>world := w\<rparr>) = (Inl e, s')"
  then show "process_command parser env command_text s
          = (Inr (failure (''Error processing command: '' @ exn_str e)), s')"
    by (simp add: process_command_def dispatch_def)
next
  fix b w
  assume "parser command_text (world s) = (Inl (BaseExc b), w)"
  then show "process_command parser env command_text s = (Inl (BaseExc b), s\<lparr>world := w\<rparr>)"
    by (simp add: process_command_def dispatch_def)
next
  fix r s'
  assume "process_command parser env command_text s = (r, s')"
  then show "(\<exists>result. r = Inr result \<and> (success result \<or> result = failure (message result)))
        \<or> (\<exists>b w. r = Inl (BaseExc b) \<and> parser command_text (world s) = (Inl (BaseExc b), w))"
    by (rule process_command_shape)
next
  fix parsed_data w
  assume "parser command_text (world s) = (Inr parsed_data, w) \<and> \<not> truthy parsed_data"
  then show "process_command parser env command_text s
          = (Inr (failure ''Failed to parse command. Please try rephrasing.''), s\<lparr>world := w\<rparr>)"
    by (simp add: process_command_def dispatch_def)
next
  fix kvs w app_name e s'
  assume a: "parser command_text (world s) = (Inr (JObj kvs), w)
          \<and> map_of kvs ''action'' = Some (JStr ''create_app_registration'')
          \<and> map_of kvs ''appName'' = Some app_name
          \<and> create_plan env app_name
               (case map_of kvs ''permissions'' of None \<Rightarrow> JArr [] | Some p \<Rightarrow> p)
               (case map_of kvs ''description'' of None \<Rightarrow> JStr [] | Some d \<Rightarrow> d)
               (s\<lparr>world := w\<rparr>) = (Inl e, s')"
  then have k: "kvs \<noteq> []" by auto
  from a have "agent_create_app_registration env app_name
               (case map_of kvs ''permissions'' of None \<Rightarrow> JArr [] | Some p \<Rightarrow> p)
               (case map_of kvs ''description'' of None \<Rightarrow> JStr [] | Some d \<Rightarrow> d)
               (s\<lparr>world := w\<rparr>)
          = (failure (''Error creating app registration: '' @ exn_str e), s')"
    by (simp add: agent_failure)
  with a k show "process_command parser env command_text s
          = (Inr (failure (''Error creating app registration: '' @ exn_str e)), s')"
    by (simp add: process_command_def dispatch_def execute_def sbind_def lift_def
        split: option.splits)
next
  obtain r s' where p: "process_command (openai_service env) env command_text s = (r, s')"
    by (cases "process_command (openai_service env) env command_text s")
  from openai_service_returns [of env command_text "world s"]
  have "\<nexists>b w. openai_service env command_text (world s) = (Inl (BaseExc b), w)"
    by auto
  with process_command_shape [OF p]
  have "\<exists>result. r = Inr result \<and> (success result \<or> result = failure (message result))"
    by blast
  with p show "\<exists>result s'. process_command (openai_service env) env command_text s = (Inr result, s')
          \<and> (success result \<or> result = failure (message result))"
    by blast
next
  fix e w
  assume "chat_completion env command_text (world s) = (Inl e, w)"
  then show "process_command (openai_service env) env command_text s
          = (Inr (failure ''Failed to parse command. Please try rephrasing.''), s\<lparr>world := w\<rparr>)"
    by (simp add: process_command_def dispatch_def openai_service_def parse_command_def)
next
  fix content w
  assume "chat_completion env command_text (world s) = (Inr content, w)
          \<and> json_loads env (json_text (py_strip content)) = None"
  then show "process_command (openai_service env) env command_text s
          = (Inr (failure ''Failed to parse command. Please try rephrasing.''), s\<lparr>world := w\<rparr>)"
    by (simp add: process_command_def dispatch_def openai_service_def parse_command_def)
qed

text \<open>
  C3, as the claim states it, fails: a parser interrupted from the keyboard raises
  \<^verbatim>\<open>KeyboardInterrupt\<close>, which is not an instance of \<^verbatim>\<open>Exception\<close>; the handler does not catch it
  and it leaves \<^verbatim>\<open>process_command\<close>.
\<close>

theorem process_command_passes_interrupt:
  "process_command interrupted_parser (stub_env [] [] no_transport)
       ''Create an app registration named Foo'' initial_state
     = (Inl (BaseExc KeyboardInterrupt), initial_state\<lparr>world := 1\<rparr>)"
  by (simp add: process_command_def dispatch_def interrupted_parser_def initial_state_def)

text \<open>A parser whose handler cannot print, a parser that returns a list, and the
  repository's parser with: an unreachable model endpoint, a reply that is not JSON, a plan
  whose secret step is refused, and a plan that succeeds.\<close>

theorem process_command_total_witness:
  "process_command closed_output_parser (stub_env [] [] no_transport)
       ''Create an app registration named Foo'' initial_state
     = (Inr (failure ''Error processing command: I/O operation on closed file.''),
        initial_state\<lparr>world := 1\<rparr>)
   \<and> process_command list_parser (stub_env [] [] no_transport)
       ''Create an app registration named Foo'' initial_state
     = (Inr (failure ''Error processing command: list indices must be integers or slices, not str''),
        initial_state\<lparr>world := 1\<rparr>)
   \<and> process_command (openai_service (chat_down (stub_env [] [] no_transport)))
       (chat_down (stub_env [] [] no_transport))
       ''Create an app registration named Foo'' initial_state
     = (Inr (failure ''Failed to parse command. Please try rephrasing.''), initial_state\<lparr>world := 1\<rparr>)
   \<and> process_command (openai_service (stub_env ''I cannot help with that.'' [] no_transport))
       (stub_env ''I cannot help with that.'' [] no_transport)
       ''Create an app registration named Foo'' initial_state
     = (Inr (failure ''Failed to parse command. Please try rephrasing.''), initial_state\<lparr>world := 1\<rparr>)
   \<and> fst (process_command
         (openai_service (stub_env foo_text [(foo_text, foo_descriptor)]
            (graph_stub (app_with []) bad_request)))
         (stub_env foo_text [(foo_text, foo_descriptor)] (graph_stub (app_with []) bad_request))
         ''Create an app registration named Foo'' initial_state)
     = Inr (failure ''Error creating app registration: 400 Client Error: Bad Request'')
   \<and> (case fst (process_command
         (openai_service (stub_env foo_text [(foo_text, foo_descriptor)]
            (graph_stub (app_with []) secret_created)))
         (stub_env foo_text [(foo_text, foo_descriptor)] (graph_stub (app_with []) secret_created))
         ''Create an app registration named Foo'' initial_state) of
         Inl r \<Rightarrow> False | Inr result \<Rightarrow> success result)"
proof -
  let ?c = "''Create an app registration named Foo''"
  let ?T = "stub_env [] [] no_transport"
  let ?D = "chat_down (stub_env [] [] no_transport)"
  let ?N = "stub_env ''I cannot help with that.'' [] no_transport"
  let ?B = "stub_env foo_text [(foo_text, foo_descriptor)] (graph_stub (app_with []) bad_request)"
  let ?G = "stub_env foo_text [(foo_text, foo_descriptor)] (graph_stub (app_with []) secret_created)"
  let ?kvs = "[(''action'', JStr ''create_app_registration''), (''appName'', JStr ''Foo'')]"
  let ?s' = "snd (create_plan ?B (JStr ''Foo'') (JArr []) (JStr []) (initial_state\<lparr>world := 1\<rparr>))"
  have o: "closed_output_parser ?c (world initial_state)
             = (Inl (Exc (Exn ValueError ''I/O operation on closed file.'')), 1)"
    by (simp add: closed_output_parser_def initial_state_def)
  have 1: "process_command closed_output_parser ?T ?c initial_state
     = (Inr (failure ''Error processing command: I/O operation on closed file.''),
        initial_state\<lparr>world := 1\<rparr>)"
    using process_command_total [where parser = closed_output_parser and env = ?T
        and command_text = ?c and s = initial_state, THEN conjunct1, rule_format, OF o]
    by simp
  have l: "list_parser ?c (world initial_state) = (Inr (JArr [JStr ''create_app_registration'']), 1)
          \<and> truthy (JArr [JStr ''create_app_registration''])
          \<and> execute ?T (JArr [JStr ''create_app_registration'']) (initial_state\<lparr>world := 1\<rparr>)
              = (Inl (Exn TypeError ''list indices must be integers or slices, not str''),
                 initial_state\<lparr>world := 1\<rparr>)"
    by (simp add: list_parser_def initial_state_def execute_def sbind_def lift_def)
  have 2: "process_command list_parser ?T ?c initial_state
     = (Inr (failure ''Error processing command: list indices must be integers or slices, not str''),
        initial_state\<lparr>world := 1\<rparr>)"
    using process_command_total [where parser = list_parser and env = ?T
        and command_text = ?c and s = initial_state,
        THEN conjunct2, THEN conjunct1, rule_format, OF l]
    by simp
  have d: "chat_completion ?D ?c (world initial_state) = (Inl (Exn OtherError ''Connection error.''), 1)"
    by (simp add: chat_down_def stub_env_def initial_state_def)
  have 3: "process_command (openai_service ?D) ?D ?c initial_state
     = (Inr (failure ''Failed to parse command. Please try rephrasing.''), initial_state\<lparr>world := 1\<rparr>)"
    using process_command_total [where env = ?D and command_text = ?c and s = initial_state,
        THEN conjunct2, THEN conjunct2, THEN conjunct2, THEN conjunct2, THEN conjunct2,
        THEN conjunct2, THEN conjunct2, THEN conjunct1, rule_format, OF d] .
  have n: "chat_completion ?N ?c (world initial_state) = (Inr ''I cannot help with that.'', 1)
          \<and> json_loads ?N (json_text (py_strip ''I cannot help with that.'')) = None"
    by (simp add: stub_env_def initial_state_def)
  have 4: "process_command (openai_service ?N) ?N ?c initial_state
     = (Inr (failure ''Failed to parse command. Please try rephrasing.''), initial_state\<lparr>world := 1\<rparr>)"
    using process_command_total [where env = ?N and command_text = ?c and s = initial_state,
        THEN conjunct2, THEN conjunct2, THEN conjunct2, THEN conjunct2, THEN conjunct2,
        THEN conjunct2, THEN conjunct2, THEN conjunct2, rule_format, OF n] .
  have b: "openai_service ?B ?c (world initial_state) = (Inr (JObj ?kvs), 1)
          \<and> map_of ?kvs ''action'' = Some (JStr ''create_app_registration'')
          \<and> map_of ?kvs ''appName'' = Some (JStr ''Foo'')
          \<and> create_plan ?B (JStr ''Foo'')
               (case map_of ?kvs ''permissions'' of None \<Rightarrow> JArr [] | Some p \<Rightarrow> p)
               (case map_of ?kvs ''description'' of None \<Rightarrow> JStr [] | Some d \<Rightarrow> d)
               (initial_state\<lparr>world := 1\<rparr>)
             = (Inl (Exn HTTPError ''400 Client Error: Bad Request''), ?s')"
    by code_simp
  have 5: "fst (process_command (openai_service ?B) ?B ?c initial_state)
     = Inr (failure ''Error creating app registration: 400 Client Error: Bad Request'')"
    using process_command_total [where parser = "openai_service ?B" and env = ?B
        and command_text = ?c and s = initial_state,
        THEN conjunct2, THEN conjunct2, THEN conjunct2, THEN conjunct2, THEN conjunct2,
        THEN conjunct1, rule_format, OF b]
    by simp
  have 6: "(case fst (process_command (openai_service ?G) ?G ?c initial_state) of
         Inl r \<Rightarrow> False | Inr result \<Rightarrow> success result)"
    by code_simp
  from 1 2 3 4 5 6 show ?thesis by simp
qed

end
